theory Spec2Isabelle
  imports Complex_Main
begin

section \<open>JavaScript values used by the server\<close>

text \<open>
  A JavaScript string is a sequence of UTF-16 code units; the range separator of
  \<^verbatim>\<open>parseTimestamps\<close> contains the en dash (code unit 8211), so code units are
  natural numbers here and \<open>js\<close> embeds an ASCII literal.
\<close>

type_synonym jsstring = "nat list"

definition js :: "string \<Rightarrow> jsstring" where
  "js s = map of_char s"

text \<open>
  Numbers are the rationals plus \<open>NaN\<close>. The timestamp arithmetic of the server only
  adds and multiplies small integers and divides by nonzero constants, so rounding of
  doubles and the infinities are left out.
\<close>

datatype jsnum = NaN | Fin rat

fun js_add :: "jsnum \<Rightarrow> jsnum \<Rightarrow> jsnum" where
  "js_add (Fin a) (Fin b) = Fin (a + b)"
| "js_add _ _ = NaN"

fun js_sub :: "jsnum \<Rightarrow> jsnum \<Rightarrow> jsnum" where
  "js_sub (Fin a) (Fin b) = Fin (a - b)"
| "js_sub _ _ = NaN"

fun js_mul :: "jsnum \<Rightarrow> jsnum \<Rightarrow> jsnum" where
  "js_mul (Fin a) (Fin b) = Fin (a * b)"
| "js_mul _ _ = NaN"

text \<open>Every comparison with \<open>NaN\<close> is false.\<close>

fun js_lt :: "jsnum \<Rightarrow> jsnum \<Rightarrow> bool" where
  "js_lt (Fin a) (Fin b) = (a < b)"
| "js_lt _ _ = False"

fun js_gt :: "jsnum \<Rightarrow> jsnum \<Rightarrow> bool" where
  "js_gt (Fin a) (Fin b) = (a > b)"
| "js_gt _ _ = False"

fun js_ge :: "jsnum \<Rightarrow> jsnum \<Rightarrow> bool" where
  "js_ge (Fin a) (Fin b) = (a \<ge> b)"
| "js_ge _ _ = False"

text \<open>\<^verbatim>\<open>Math.max\<close> and \<^verbatim>\<open>Math.min\<close> return \<open>NaN\<close> when an argument is \<open>NaN\<close>.\<close>

fun Math_max :: "jsnum \<Rightarrow> jsnum \<Rightarrow> jsnum" where
  "Math_max (Fin a) (Fin b) = Fin (max a b)"
| "Math_max _ _ = NaN"

fun Math_min :: "jsnum \<Rightarrow> jsnum \<Rightarrow> jsnum" where
  "Math_min (Fin a) (Fin b) = Fin (min a b)"
| "Math_min _ _ = NaN"

fun Math_floor :: "jsnum \<Rightarrow> jsnum" where
  "Math_floor (Fin a) = Fin (of_int \<lfloor>a\<rfloor>)"
| "Math_floor NaN = NaN"

text \<open>
  The remainder \<^verbatim>\<open>x % m\<close> takes the sign of the dividend; it is only used with the
  constant divisors 3600, 60 and 1.
\<close>

definition trunc :: "rat \<Rightarrow> int" where
  "trunc x = (if 0 \<le> x then \<lfloor>x\<rfloor> else \<lceil>x\<rceil>)"

fun js_rem :: "jsnum \<Rightarrow> rat \<Rightarrow> jsnum" where
  "js_rem (Fin a) m = (if m = 0 then NaN else Fin (a - m * of_int (trunc (a / m))))"
| "js_rem NaN m = NaN"

text \<open>A number is truthy unless it is zero or \<open>NaN\<close>.\<close>

fun truthy_num :: "jsnum \<Rightarrow> bool" where
  "truthy_num (Fin a) = (a \<noteq> 0)"
| "truthy_num NaN = False"

subsection \<open>Strings\<close>

text \<open>
  White space and line terminators: the characters that \<^verbatim>\<open>trim\<close> strips and that
  \<^verbatim>\<open>\s\<close> matches.
\<close>

definition is_ws :: "nat \<Rightarrow> bool" where
  "is_ws c = (c \<in> set [9, 10, 11, 12, 13, 32, 160, 5760, 8192, 8193, 8194, 8195, 8196,
     8197, 8198, 8199, 8200, 8201, 8202, 8232, 8233, 8239, 8287, 12288, 65279])"

definition js_trim :: "jsstring \<Rightarrow> jsstring" where
  "js_trim s = rev (dropWhile is_ws (rev (dropWhile is_ws s)))"

text \<open>\<^verbatim>\<open>s.split(c)\<close> for a one-character separator: every occurrence splits.\<close>

fun js_split :: "nat \<Rightarrow> jsstring \<Rightarrow> jsstring list" where
  "js_split c [] = [[]]"
| "js_split c (x # xs) =
     (if x = c then [] # js_split c xs
      else (case js_split c xs of
              [] \<Rightarrow> [[x]]
            | p # ps \<Rightarrow> (x # p) # ps))"

text \<open>
  \<^verbatim>\<open>s.split(/[...]+/)\<close> for a character class: each maximal run of separator
  characters splits once; a leading or trailing run leaves an empty piece.
\<close>

function split_runs :: "(nat \<Rightarrow> bool) \<Rightarrow> jsstring \<Rightarrow> jsstring list" where
  "split_runs sep s =
     (let piece = takeWhile (\<lambda>c. \<not> sep c) s;
          rest = dropWhile (\<lambda>c. \<not> sep c) s
      in if rest = [] then [piece] else piece # split_runs sep (dropWhile sep rest))"
  by pat_completeness auto
termination
proof (relation "measure (\<lambda>(sep, s). length s)")
  show "wf (measure (\<lambda>(sep, s). length s))" by simp
next
  fix sep :: "nat \<Rightarrow> bool" and s piece rest :: jsstring
  assume r: "rest = dropWhile (\<lambda>c. \<not> sep c) s" and ne: "rest \<noteq> []"
  from ne obtain c cs where rc: "rest = c # cs" by (cases rest) auto
  have "sep c" using r rc dropWhile_eq_Cons_conv [of "\<lambda>c. \<not> sep c" s c cs] by simp
  then have "length (dropWhile sep rest) \<le> length cs"
    using rc length_dropWhile_le [of sep cs] by simp
  moreover have "length rest \<le> length s"
    using r length_dropWhile_le [of "\<lambda>c. \<not> sep c" s] by simp
  ultimately show "((sep, dropWhile sep rest), (sep, s)) \<in> measure (\<lambda>(sep, s). length s)"
    using rc by simp
qed

declare split_runs.simps [simp del]

definition is_digit :: "nat \<Rightarrow> bool" where
  "is_digit c = (48 \<le> c \<and> c \<le> 57)"

definition digits_val :: "jsstring \<Rightarrow> nat" where
  "digits_val ds = foldl (\<lambda>a c. 10 * a + (c - 48)) 0 ds"

text \<open>
  \<^verbatim>\<open>Number(s)\<close>: white space is trimmed, the empty string is 0, and a decimal
  literal with an optional sign and an optional fraction is its value; anything else
  is \<open>NaN\<close>. Every string the server converts is a run of decimal digits (the pieces
  of a normalized timestamp or of a \<^verbatim>\<open>formatDuration\<close> result); exponents, the
  \<^verbatim>\<open>0x\<close>, \<^verbatim>\<open>0o\<close> and \<^verbatim>\<open>0b\<close> prefixes and \<^verbatim>\<open>Infinity\<close> are not covered.
\<close>

definition unsigned_decimal :: "jsstring \<Rightarrow> rat option" where
  "unsigned_decimal r =
     (let ip = takeWhile is_digit r; rest = dropWhile is_digit r
      in case rest of
           [] \<Rightarrow> (if ip = [] then None else Some (of_nat (digits_val ip)))
         | c # fp \<Rightarrow>
             (if c = 46 \<and> list_all is_digit fp \<and> (ip \<noteq> [] \<or> fp \<noteq> [])
              then Some (of_nat (digits_val ip) + of_nat (digits_val fp) / 10 ^ length fp)
              else None))"

definition js_Number :: "jsstring \<Rightarrow> jsnum" where
  "js_Number s =
     (case js_trim s of
        [] \<Rightarrow> Fin 0
      | c # r \<Rightarrow>
          (if c = 43 then (case unsigned_decimal r of None \<Rightarrow> NaN | Some v \<Rightarrow> Fin v)
           else if c = 45 then (case unsigned_decimal r of None \<Rightarrow> NaN | Some v \<Rightarrow> Fin (- v))
           else (case unsigned_decimal (c # r) of None \<Rightarrow> NaN | Some v \<Rightarrow> Fin v)))"

text \<open>Decimal digits of a natural number, and \<^verbatim>\<open>toString\<close> of an integral number.\<close>

function nat_digits :: "nat \<Rightarrow> jsstring" where
  "nat_digits n = (if n < 10 then [48 + n] else nat_digits (n div 10) @ [48 + n mod 10])"
  by pat_completeness auto
termination
  by (relation "measure (\<lambda>n. n)") auto

declare nat_digits.simps [simp del]

definition int_toString :: "int \<Rightarrow> jsstring" where
  "int_toString i = (if i < 0 then 45 # nat_digits (nat (- i)) else nat_digits (nat i))"

text \<open>
  \<^verbatim>\<open>toString\<close> is only applied to results of \<^verbatim>\<open>Math.floor\<close>, which are integral or
  \<open>NaN\<close>.
\<close>

fun floor_toString :: "jsnum \<Rightarrow> jsstring" where
  "floor_toString NaN = js ''NaN''"
| "floor_toString (Fin a) = int_toString \<lfloor>a\<rfloor>"

definition padStart :: "nat \<Rightarrow> nat \<Rightarrow> jsstring \<Rightarrow> jsstring" where
  "padStart n c s = replicate (n - length s) c @ s"

section \<open>Timestamps\<close>

record timestamp =
  startTime :: jsstring
  endTime :: jsstring

text \<open>
  \<^verbatim>\<open>timestampToSeconds\<close>: split at the colons, convert every piece with
  \<^verbatim>\<open>Number\<close>; three pieces are hours, minutes and seconds, two pieces are minutes and
  seconds, any other count gives 0.
\<close>

definition timestampToSeconds :: "jsstring \<Rightarrow> jsnum" where
  "timestampToSeconds t =
     (case map js_Number (js_split 58 t) of
        [a, b, c] \<Rightarrow> js_add (js_add (js_mul a (Fin 3600)) (js_mul b (Fin 60))) c
      | [a, b] \<Rightarrow> js_add (js_mul a (Fin 60)) b
      | _ \<Rightarrow> Fin 0)"

text \<open>
  The pattern \<^verbatim>\<open>^(\d{1,2}):(\d{2})(?::(\d{2}))?$\<close>. The result holds the three groups
  in the order of the pattern; the third is absent when the input has two fields.
\<close>

fun match_tail :: "jsstring \<Rightarrow> (jsstring \<times> jsstring option) option" where
  "match_tail [a, b] =
     (if is_digit a \<and> is_digit b then Some ([a, b], None) else None)"
| "match_tail [a, b, c, d, e] =
     (if is_digit a \<and> is_digit b \<and> c = 58 \<and> is_digit d \<and> is_digit e
      then Some ([a, b], Some [d, e]) else None)"
| "match_tail _ = None"

fun timePattern :: "jsstring \<Rightarrow> (jsstring \<times> jsstring \<times> jsstring option) option" where
  "timePattern (a # b # c # rest) =
     (if is_digit a \<and> is_digit b \<and> c = 58
      then map_option (\<lambda>(g2, g3). ([a, b], g2, g3)) (match_tail rest)
      else if is_digit a \<and> b = 58
      then map_option (\<lambda>(g2, g3). ([a], g2, g3)) (match_tail (c # rest))
      else None)"
| "timePattern _ = None"

text \<open>
  \<^verbatim>\<open>normalizeTimestamp\<close>: trim, turn semicolons and periods into colons, match the
  pattern. The groups are bound as \<^verbatim>\<open>[, minutes, seconds, hours] = match\<close>, so
  \<open>minutes\<close> is the first group, \<open>seconds\<close> the second and \<open>hours\<close> the third. No
  bound is put on the value of a field.
\<close>

definition normalizeTimestamp :: "jsstring \<Rightarrow> jsstring option" where
  "normalizeTimestamp timestamp =
     (let t = map (\<lambda>c. if c = 59 \<or> c = 46 then 58 else c) (js_trim timestamp)
      in case timePattern t of
           None \<Rightarrow> None
         | Some (minutes, seconds, Some hours) \<Rightarrow>
             Some (padStart 2 48 hours @ [58] @ padStart 2 48 minutes @ [58] @ seconds)
         | Some (minutes, seconds, None) \<Rightarrow>
             Some (js ''00:'' @ padStart 2 48 minutes @ [58] @ seconds))"

text \<open>The range separators \<^verbatim>\<open>[-\<dots>,\s]\<close>: hyphen, en dash, comma, white space.\<close>

definition is_range_sep :: "nat \<Rightarrow> bool" where
  "is_range_sep c = (c = 45 \<or> c = 8211 \<or> c = 44 \<or> is_ws c)"

definition parse_line :: "jsstring \<Rightarrow> timestamp list" where
  "parse_line line =
     (case filter (\<lambda>part. js_trim part \<noteq> []) (split_runs is_range_sep line) of
        p0 # p1 # _ \<Rightarrow>
          (case (normalizeTimestamp (js_trim p0), normalizeTimestamp (js_trim p1)) of
             (Some s, Some e) \<Rightarrow> [\<lparr>startTime = s, endTime = e\<rparr>]
           | _ \<Rightarrow> [])
      | _ \<Rightarrow> [])"

definition parseTimestamps :: "jsstring \<Rightarrow> timestamp list" where
  "parseTimestamps text =
     concat (map parse_line (filter (\<lambda>line. line \<noteq> []) (map js_trim (js_split 10 text))))"

section \<open>Validation of parsed time ranges\<close>

text \<open>
  The messages of \<^verbatim>\<open>validateTimestamps\<close>, with the clip numbers and times they
  quote:
  \<^item> \<open>StartNotBeforeEnd n\<close>: \<^verbatim>\<open>Clip n: Start time must be before end time\<close>;
  \<^item> \<open>EndExceedsDuration n\<close>: \<^verbatim>\<open>Clip n: End time exceeds video duration\<close>;
  \<^item> \<open>Overlaps n m d\<close>: \<^verbatim>\<open>Clip n overlaps with clip m by d seconds\<close>;
  \<^item> \<open>ExactSecond n t\<close>: \<^verbatim>\<open>Clip n: Starting at exact second (t) may show black frames\<close>;
  \<^item> \<open>EarlyStart n t\<close>: \<^verbatim>\<open>Clip n: Very early start time (t) may be in fade-in area\<close>;
  \<^item> \<open>ZeroStart n\<close>: \<^verbatim>\<open>Clip n: Starting at 0:00 often contains black frames\<close>.
\<close>

datatype verror = StartNotBeforeEnd nat | EndExceedsDuration nat

datatype vwarning =
    Overlaps nat nat jsnum
  | ExactSecond nat jsstring
  | EarlyStart nat jsstring
  | ZeroStart nat

record validation =
  valid :: "timestamp list"
  errors :: "verror list"
  warnings :: "vwarning list"

text \<open>
  \<^verbatim>\<open>videoDuration ? timestampToSeconds(videoDuration) : null\<close>: an absent or empty
  duration string gives \<open>null\<close>.
\<close>

fun videoDurationSeconds :: "jsstring option \<Rightarrow> jsnum option" where
  "videoDurationSeconds None = None"
| "videoDurationSeconds (Some d) = (if d = [] then None else Some (timestampToSeconds d))"

text \<open>The guard \<^verbatim>\<open>if (videoDurationSeconds)\<close> followed by the comparison with the end.\<close>

fun exceeds_duration :: "jsnum option \<Rightarrow> jsnum \<Rightarrow> bool" where
  "exceeds_duration None endSeconds = False"
| "exceeds_duration (Some d) endSeconds = (truthy_num d \<and> js_gt endSeconds d)"

text \<open>The inner loop over the clips accepted so far; \<open>j\<close> counts from 0.\<close>

fun overlap_loop :: "nat \<Rightarrow> jsnum \<Rightarrow> jsnum \<Rightarrow> nat \<Rightarrow> timestamp list \<Rightarrow> vwarning list" where
  "overlap_loop i startSeconds endSeconds j [] = []"
| "overlap_loop i startSeconds endSeconds j (prevClip # rest) =
     (let prevStartSeconds = timestampToSeconds (startTime prevClip);
          prevEndSeconds = timestampToSeconds (endTime prevClip)
      in (if js_lt startSeconds prevEndSeconds \<and> js_gt endSeconds prevStartSeconds
          then [Overlaps (i + 1) (j + 1)
                  (js_sub (Math_min endSeconds prevEndSeconds)
                          (Math_max startSeconds prevStartSeconds))]
          else [])
         @ overlap_loop i startSeconds endSeconds (j + 1) rest)"

definition black_frame_warnings :: "nat \<Rightarrow> jsstring \<Rightarrow> jsnum \<Rightarrow> vwarning list" where
  "black_frame_warnings i start startSeconds =
     (if js_rem startSeconds 1 = Fin 0 \<and> js_gt startSeconds (Fin 0)
      then [ExactSecond (i + 1) start] else [])
     @ (if js_lt startSeconds (Fin 1) then [EarlyStart (i + 1) start] else [])
     @ (if startSeconds = Fin 0 then [ZeroStart (i + 1)] else [])"

text \<open>The outer loop; \<open>i\<close> counts from 0 and \<open>continue\<close> is the recursive call.\<close>

fun validate_loop :: "jsnum option \<Rightarrow> nat \<Rightarrow> timestamp list \<Rightarrow> validation \<Rightarrow> validation" where
  "validate_loop dur i [] acc = acc"
| "validate_loop dur i (t # ts) acc =
     (let startSeconds = timestampToSeconds (startTime t);
          endSeconds = timestampToSeconds (endTime t)
      in if js_ge startSeconds endSeconds
         then validate_loop dur (i + 1) ts
                (acc\<lparr>errors := errors acc @ [StartNotBeforeEnd (i + 1)]\<rparr>)
         else if exceeds_duration dur endSeconds
         then validate_loop dur (i + 1) ts
                (acc\<lparr>errors := errors acc @ [EndExceedsDuration (i + 1)]\<rparr>)
         else validate_loop dur (i + 1) ts
                (acc\<lparr>warnings := warnings acc
                        @ overlap_loop i startSeconds endSeconds 0 (valid acc)
                        @ black_frame_warnings i (startTime t) startSeconds,
                      valid := valid acc @ [\<lparr>startTime = startTime t, endTime = endTime t\<rparr>]\<rparr>))"

definition validateTimestamps :: "timestamp list \<Rightarrow> jsstring option \<Rightarrow> validation" where
  "validateTimestamps timestamps videoDuration =
     validate_loop (videoDurationSeconds videoDuration) 0 timestamps
       \<lparr>valid = [], errors = [], warnings = []\<rparr>"

section \<open>Seconds to timestamp, random cuts\<close>

text \<open>
  \<^verbatim>\<open>secondsToTimestamp\<close> of the server prints milliseconds and leaves the hours out
  when they are zero.
\<close>

fun js_div :: "jsnum \<Rightarrow> rat \<Rightarrow> jsnum" where
  "js_div (Fin a) m = (if m = 0 then NaN else Fin (a / m))"
| "js_div NaN m = NaN"

definition pad2 :: "jsnum \<Rightarrow> jsstring" where
  "pad2 x = padStart 2 48 (floor_toString x)"

definition pad3 :: "jsnum \<Rightarrow> jsstring" where
  "pad3 x = padStart 3 48 (floor_toString x)"

definition secondsToTimestamp :: "jsnum \<Rightarrow> jsstring" where
  "secondsToTimestamp seconds =
     (let hours = Math_floor (js_div seconds 3600);
          minutes = Math_floor (js_div (js_rem seconds 3600) 60);
          remainingSeconds = Math_floor (js_rem seconds 60);
          milliseconds = Math_floor (js_mul (js_rem seconds 1) (Fin 1000))
      in if js_gt hours (Fin 0)
         then pad2 hours @ [58] @ pad2 minutes @ [58] @ pad2 remainingSeconds
              @ [46] @ pad3 milliseconds
         else pad2 minutes @ [58] @ pad2 remainingSeconds @ [46] @ pad3 milliseconds)"

text \<open>
  The adaptive plan of \<^verbatim>\<open>generateRandomTimestamps\<close>: target number of clips,
  minimum and maximum clip duration. With \<open>NaN\<close> every comparison is false and the
  last branch is taken.
\<close>

fun clip_plan :: "jsnum \<Rightarrow> int \<times> rat \<times> rat" where
  "clip_plan NaN = (5, 15, 30)"
| "clip_plan (Fin t) =
     (if t < 30 then
        (let targetClips = max 2 \<lfloor>t / 8\<rfloor>
         in (targetClips, 3, min 5 (t / of_int targetClips - 1)))
      else if t < 60 then
        (let targetClips = max 3 \<lfloor>t / 15\<rfloor>
         in (targetClips, 5, min 10 (t / of_int targetClips - 1)))
      else if t < 120 then
        (let targetClips = max 4 \<lfloor>t / 20\<rfloor>
         in (targetClips, 8, min 15 (t / of_int targetClips - 1)))
      else (5, 15, 30))"

fun Math_round :: "jsnum \<Rightarrow> jsnum" where
  "Math_round (Fin a) = Fin (of_int \<lfloor>a + 1 / 2\<rfloor>)"
| "Math_round NaN = NaN"

text \<open>
  \<open>VideoTooShort s need n m\<close> is the thrown
  \<^verbatim>\<open>Video too short (s). Need at least need for n clips of m each.\<close>
\<close>

datatype gen_error = VideoTooShort jsnum rat int rat

text \<open>
  \<^verbatim>\<open>Math.random()\<close> is a stream \<open>rng\<close> of rationals in \<open>[0, 1)\<close>; \<open>next_random\<close>
  is the position of the next draw.
\<close>

record gen_state =
  next_random :: nat
  usedRanges :: "(jsnum \<times> jsnum) list"
  timestamps :: "timestamp list"

definition strip_millis :: "jsstring \<Rightarrow> jsstring" where
  "strip_millis s = (case js_split 46 s of [] \<Rightarrow> [] | p # _ \<Rightarrow> p)"

text \<open>The \<^verbatim>\<open>while (!validClip && attempts < 50)\<close> loop; \<open>k\<close> attempts remain.\<close>

fun attempt_loop :: "(nat \<Rightarrow> rat) \<Rightarrow> jsnum \<Rightarrow> rat \<Rightarrow> rat \<Rightarrow> nat \<Rightarrow> gen_state \<Rightarrow> gen_state" where
  "attempt_loop rng totalSeconds minClipDuration maxClipDuration 0 st = st"
| "attempt_loop rng totalSeconds minClipDuration maxClipDuration (Suc k) st =
     (let clipDuration =
            Fin (rng (next_random st) * (maxClipDuration - minClipDuration) + minClipDuration);
          buffer = Math_min (Fin 2) (js_mul totalSeconds (Fin (1 / 10)));
          maxStartTime = js_sub (js_sub totalSeconds clipDuration) buffer;
          start = js_mul (Fin (rng (next_random st + 1))) maxStartTime;
          end = js_add start clipDuration;
          overlap = list_ex (\<lambda>(range_start, range_end).
                       js_lt start range_end \<and> js_gt end range_start) (usedRanges st)
      in if \<not> overlap
         then st\<lparr>next_random := next_random st + 2,
                 usedRanges := usedRanges st @ [(start, end)],
                 timestamps := timestamps st
                   @ [\<lparr>startTime = strip_millis (secondsToTimestamp start),
                        endTime = strip_millis (secondsToTimestamp end)\<rparr>]\<rparr>
         else attempt_loop rng totalSeconds minClipDuration maxClipDuration k
                (st\<lparr>next_random := next_random st + 2\<rparr>))"

fun clip_loop :: "(nat \<Rightarrow> rat) \<Rightarrow> jsnum \<Rightarrow> rat \<Rightarrow> rat \<Rightarrow> nat \<Rightarrow> gen_state \<Rightarrow> gen_state" where
  "clip_loop rng totalSeconds minClipDuration maxClipDuration 0 st = st"
| "clip_loop rng totalSeconds minClipDuration maxClipDuration (Suc n) st =
     clip_loop rng totalSeconds minClipDuration maxClipDuration n
       (attempt_loop rng totalSeconds minClipDuration maxClipDuration 50 st)"

text \<open>
  The final \<^verbatim>\<open>sort\<close> compares the seconds of the start times and is stable. The
  start times are all numeric or (when the duration is \<open>NaN\<close>) all \<open>NaN\<close>; in the
  second case the comparator is 0 everywhere and the order is kept.
\<close>

definition start_key :: "timestamp \<Rightarrow> rat" where
  "start_key t = (case timestampToSeconds (startTime t) of Fin q \<Rightarrow> q | NaN \<Rightarrow> 0)"

definition generateRandomTimestamps :: "(nat \<Rightarrow> rat) \<Rightarrow> jsstring \<Rightarrow> gen_error + timestamp list" where
  "generateRandomTimestamps rng videoDuration =
     (let totalSeconds = timestampToSeconds videoDuration;
          (targetClips, minClipDuration, maxClipDuration) = clip_plan totalSeconds;
          totalNeededDuration = of_int targetClips * minClipDuration
      in if js_lt totalSeconds (Fin totalNeededDuration)
         then Inl (VideoTooShort (Math_round totalSeconds) totalNeededDuration
                     targetClips minClipDuration)
         else Inr (sort_key start_key
                (timestamps
                  (clip_loop rng totalSeconds minClipDuration maxClipDuration (nat targetClips)
                     \<lparr>next_random = 0, usedRanges = [], timestamps = []\<rparr>))))"

text \<open>A finite prefix of draws, continued with zeros.\<close>

definition rng_of :: "rat list \<Rightarrow> nat \<Rightarrow> rat" where
  "rng_of rs n = (if n < length rs then rs ! n else 0)"

section \<open>Chunked upload sessions\<close>

text \<open>
  \<^verbatim>\<open>parseInt(s)\<close>: leading white space and a sign are skipped, a \<^verbatim>\<open>0x\<close> prefix
  selects base 16, and the longest prefix of digits is read; no digit gives \<open>NaN\<close>.
  An absent form field (\<^verbatim>\<open>undefined\<close>) gives \<open>NaN\<close> as well.
\<close>

definition is_hex :: "nat \<Rightarrow> bool" where
  "is_hex c = (is_digit c \<or> (65 \<le> c \<and> c \<le> 70) \<or> (97 \<le> c \<and> c \<le> 102))"

definition hex_val :: "jsstring \<Rightarrow> nat" where
  "hex_val ds = foldl (\<lambda>a c. 16 * a +
     (if is_digit c then c - 48 else if c \<le> 70 then c - 55 else c - 87)) 0 ds"

definition parse_magnitude :: "jsstring \<Rightarrow> nat option" where
  "parse_magnitude u =
     (case u of
        a # x # r \<Rightarrow>
          (if a = 48 \<and> (x = 120 \<or> x = 88)
           then (if takeWhile is_hex r = [] then None else Some (hex_val (takeWhile is_hex r)))
           else (if takeWhile is_digit u = [] then None
                 else Some (digits_val (takeWhile is_digit u))))
      | _ \<Rightarrow> (if takeWhile is_digit u = [] then None
              else Some (digits_val (takeWhile is_digit u))))"

fun js_parseInt :: "jsstring option \<Rightarrow> jsnum" where
  "js_parseInt None = NaN"
| "js_parseInt (Some s) =
     (case dropWhile is_ws s of
        [] \<Rightarrow> NaN
      | c # r \<Rightarrow>
          (if c = 45 then (case parse_magnitude r of None \<Rightarrow> NaN | Some n \<Rightarrow> Fin (- of_nat n))
           else if c = 43 then (case parse_magnitude r of None \<Rightarrow> NaN | Some n \<Rightarrow> Fin (of_nat n))
           else (case parse_magnitude (c # r) of None \<Rightarrow> NaN | Some n \<Rightarrow> Fin (of_nat n))))"

text \<open>The metadata of \<^verbatim>\<open>chunkStore\<close>; the chunks themselves are files.\<close>

record upload_session =
  chunkDir :: jsstring
  fileName :: "jsstring option"
  totalSize :: nat
  totalChunks :: jsnum
  receivedChunks :: nat
  timestamp :: nat
  finalizing :: bool

text \<open>
  The server state the upload handlers touch: the session map and the files, a map
  from path to content. \<^verbatim>\<open>path.join\<close> is concatenation with a slash; its
  normalization of dots and repeated slashes is left out.
\<close>

record upload_server =
  chunkStore :: "jsstring \<rightharpoonup> upload_session"
  disk :: "jsstring \<rightharpoonup> nat list"

definition path_join :: "jsstring \<Rightarrow> jsstring \<Rightarrow> jsstring" where
  "path_join a b = a @ [47] @ b"

text \<open>The fields of a chunk request; \<open>chunk\<close> plays \<^verbatim>\<open>req.file\<close>.\<close>

record chunk_request =
  chunkIndex :: "jsstring option"
  req_totalChunks :: "jsstring option"
  uploadId :: "jsstring option"
  req_fileName :: "jsstring option"
  chunk :: "nat list option"

datatype chunk_response =
    MissingChunkData
  | ChunkReceived nat jsnum

text \<open>The name \<^verbatim>\<open>String(chunkIndex).padStart(5, '0') + '.part'\<close>.\<close>

definition chunkFileName :: "jsstring \<Rightarrow> jsstring" where
  "chunkFileName idx = padStart 5 48 idx @ js ''.part''"

text \<open>
  \<^verbatim>\<open>POST /api/upload-chunk\<close> at time \<open>now\<close>. The first chunk of an unseen
  \<open>uploadId\<close> creates the session; every chunk moves its file into the session's
  directory (replacing a file of the same name) and increments the counter. Failing
  file operations (the 500 answer) are left out, and the handler is one step: chunk
  requests whose file operations overlap in time are not covered. They are covered by
  the handlers split at their \<^verbatim>\<open>await\<close>s, further down.
\<close>

definition upload_chunk :: "nat \<Rightarrow> chunk_request \<Rightarrow> upload_server \<Rightarrow> chunk_response \<times> upload_server" where
  "upload_chunk now req srv =
     (case (chunk req, uploadId req, chunkIndex req) of
        (Some data, Some uid, Some idx) \<Rightarrow>
          (if uid = [] then (MissingChunkData, srv)
           else
             let store1 =
                   (case chunkStore srv uid of
                      Some _ \<Rightarrow> chunkStore srv
                    | None \<Rightarrow> (chunkStore srv)(uid \<mapsto>
                        \<lparr>chunkDir = path_join (path_join (js ''uploads'') (js ''chunks'')) uid,
                         fileName = req_fileName req,
                         totalSize = 0,
                         totalChunks = js_parseInt (req_totalChunks req),
                         receivedChunks = 0,
                         timestamp = now,
                         finalizing = False\<rparr>))
             in (case store1 uid of
                   None \<Rightarrow> (MissingChunkData, srv)
                 | Some upload \<Rightarrow>
                     let chunkPath = path_join (chunkDir upload) (chunkFileName idx);
                         upload' = upload\<lparr>receivedChunks := receivedChunks upload + 1,
                                          totalSize := totalSize upload + length data\<rparr>
                     in (ChunkReceived (receivedChunks upload') (totalChunks upload'),
                         srv\<lparr>chunkStore := store1(uid \<mapsto> upload'),
                             disk := (disk srv)(chunkPath \<mapsto> data)\<rparr>)))
      | _ \<Rightarrow> (MissingChunkData, srv))"

datatype finalize_response =
    SessionNotFound
  | IncompleteUpload
  | AlreadyFinalizing
  | FinalizeFailed
  | VideoCreated jsstring

text \<open>
  The synchronous head of \<^verbatim>\<open>POST /api/finalize-upload\<close>, from the lookup to
  \<^verbatim>\<open>upload.finalizing = true\<close>. It contains no \<^verbatim>\<open>await\<close>, so no other handler
  runs inside it. It either answers or admits the call to the assembly.
\<close>

definition finalize_enter :: "jsstring \<Rightarrow> upload_server \<Rightarrow> (finalize_response + upload_session) \<times> upload_server" where
  "finalize_enter uid srv =
     (case chunkStore srv uid of
        None \<Rightarrow> (Inl SessionNotFound, srv)
      | Some upload \<Rightarrow>
          if Fin (of_nat (receivedChunks upload)) \<noteq> totalChunks upload
          then (Inl IncompleteUpload, srv)
          else if finalizing upload then (Inl AlreadyFinalizing, srv)
          else (Inr (upload\<lparr>finalizing := True\<rparr>),
                srv\<lparr>chunkStore := (chunkStore srv)(uid \<mapsto> upload\<lparr>finalizing := True\<rparr>)\<rparr>))"

text \<open>
  The merge loop: chunk \<open>i\<close> is looked up under its zero-padded name; a missing file
  is the thrown \<^verbatim>\<open>Missing chunk i\<close>.
\<close>

fun merge_chunks :: "(jsstring \<rightharpoonup> nat list) \<Rightarrow> jsstring \<Rightarrow> nat list \<Rightarrow> nat + nat list" where
  "merge_chunks files dir [] = Inr []"
| "merge_chunks files dir (i # is) =
     (case files (path_join dir (chunkFileName (nat_digits i))) of
        None \<Rightarrow> Inl i
      | Some data \<Rightarrow>
          (case merge_chunks files dir is of
             Inl m \<Rightarrow> Inl m
           | Inr rest \<Rightarrow> Inr (data @ rest)))"

text \<open>The indices of \<^verbatim>\<open>for (let i = 0; i < upload.totalChunks; i++)\<close>.\<close>

fun chunk_indices :: "jsnum \<Rightarrow> nat list" where
  "chunk_indices NaN = []"
| "chunk_indices (Fin q) = [0 ..< nat \<lceil>q\<rceil>]"

text \<open>\<^verbatim>\<open>fs.rm(dir, {recursive: true, force: true})\<close>.\<close>

definition rm_dir :: "jsstring \<Rightarrow> (jsstring \<rightharpoonup> nat list) \<Rightarrow> (jsstring \<rightharpoonup> nat list)" where
  "rm_dir dir files = (\<lambda>p. if take (length dir + 1) p = dir @ [47] then None else files p)"




subsection \<open>The handlers between their awaits\<close>

text \<open>
  Node runs a handler up to its next \<^verbatim>\<open>await\<close> and serves other requests until
  the awaited operation is done, so the requests of one upload interleave at these
  points. The chunk handler waits for \<^verbatim>\<open>fs.mkdir\<close> (only when
  \<^verbatim>\<open>chunkStore.has\<close> found no session), for \<^verbatim>\<open>fs.rename\<close> and for
  \<^verbatim>\<open>fs.stat\<close>; the finalize handler waits only after it has set the flag.

  The session records are objects: \<^verbatim>\<open>chunkStore\<close> maps an \<open>uploadId\<close> to a
  reference, and a waiting handler keeps the reference it read into
  \<^verbatim>\<open>upload\<close>, also when \<^verbatim>\<open>chunkStore\<close> has been given another record for
  that \<open>uploadId\<close> or none. A reference is an index into \<open>objects\<close>, and a new record
  is appended.
\<close>

datatype waiting_handler =
    AwaitMkdir chunk_request jsstring jsstring "nat list"
  | AwaitRename nat jsstring "nat list"
  | AwaitStat nat jsstring
  | Assembling nat jsstring jsstring nat

record upload_world =
  objects :: "upload_session list"
  refs :: "jsstring \<rightharpoonup> nat"
  filesys :: "jsstring \<rightharpoonup> nat list"
  waiting :: "waiting_handler list"

definition session_at :: "upload_world \<Rightarrow> nat \<Rightarrow> upload_session option" where
  "session_at w a = (if a < length (objects w) then Some (objects w ! a) else None)"

text \<open>
  A chunk request arrives: the handler runs to its first \<^verbatim>\<open>await\<close>, which is
  \<^verbatim>\<open>fs.mkdir\<close> when \<^verbatim>\<open>chunkStore.has(uploadId)\<close> is false and
  \<^verbatim>\<open>fs.rename\<close>, with the record already read, otherwise. A reference always
  points to a record; the branch for one that does not only makes the function total.
\<close>

definition chunk_begin :: "chunk_request \<Rightarrow> upload_world \<Rightarrow> upload_world" where
  "chunk_begin req w =
     (case (chunk req, uploadId req, chunkIndex req) of
        (Some data, Some uid, Some idx) \<Rightarrow>
          (if uid = [] then w
           else (case refs w uid of
                   None \<Rightarrow> w\<lparr>waiting := waiting w @ [AwaitMkdir req uid idx data]\<rparr>
                 | Some a \<Rightarrow>
                     (case session_at w a of
                        None \<Rightarrow> w
                      | Some upload \<Rightarrow>
                          w\<lparr>waiting := waiting w @
                              [AwaitRename a (path_join (chunkDir upload) (chunkFileName idx)) data]\<rparr>)))
      | _ \<Rightarrow> w)"

text \<open>
  A finalize request arrives at time \<open>now\<close>: the head of the handler, as in
  \<open>finalize_enter\<close>. An admitted call has set the flag of the record it read and
  waits in the assembly with that record and its \<^verbatim>\<open>finalPath\<close> stamp.
\<close>

definition finalize_head :: "nat \<Rightarrow> jsstring \<Rightarrow> jsstring \<Rightarrow> upload_world \<Rightarrow> (finalize_response + nat) \<times> upload_world" where
  "finalize_head now uid name w =
     (case refs w uid of
        None \<Rightarrow> (Inl SessionNotFound, w)
      | Some a \<Rightarrow>
          (case session_at w a of
             None \<Rightarrow> (Inl SessionNotFound, w)
           | Some upload \<Rightarrow>
               if Fin (of_nat (receivedChunks upload)) \<noteq> totalChunks upload
               then (Inl IncompleteUpload, w)
               else if finalizing upload then (Inl AlreadyFinalizing, w)
               else (Inr a,
                     w\<lparr>objects := (objects w)[a := upload\<lparr>finalizing := True\<rparr>],
                       waiting := waiting w @ [Assembling a uid name now]\<rparr>)))"

text \<open>
  A waiting handler goes on at time \<open>now\<close>, up to its next \<^verbatim>\<open>await\<close> or its
  answer.

  \<^item> After \<^verbatim>\<open>fs.mkdir\<close>: \<^verbatim>\<open>chunkStore.set\<close> with a new record, whatever the
    map holds by now, and \<^verbatim>\<open>chunkStore.get\<close> returns that record.
  \<^item> After \<^verbatim>\<open>fs.rename\<close>: the chunk file is in place.
  \<^item> After \<^verbatim>\<open>fs.stat\<close>: the counter and the size of the record read earlier are
    increased; a file that is gone makes \<^verbatim>\<open>fs.stat\<close> throw, and nothing is
    counted.
  \<^item> The assembly, taken in one piece: merge, then remove the chunk directory and the
    entry of the \<open>uploadId\<close>; on a missing chunk remove the partial file, the directory
    and the entry (the 500 answer).

  Any other failing file operation ends its handler with the 500 answer; for the
  sessions this is the run in which the handler is not resumed.
\<close>

fun resume :: "nat \<Rightarrow> waiting_handler \<Rightarrow> upload_world \<Rightarrow> upload_world" where
  "resume now (AwaitMkdir req uid idx data) w =
     (let upload =
            \<lparr>chunkDir = path_join (path_join (js ''uploads'') (js ''chunks'')) uid,
             fileName = req_fileName req,
             totalSize = 0,
             totalChunks = js_parseInt (req_totalChunks req),
             receivedChunks = 0,
             timestamp = now,
             finalizing = False\<rparr>
      in w\<lparr>objects := objects w @ [upload],
           refs := (refs w)(uid \<mapsto> length (objects w)),
           waiting := waiting w @
             [AwaitRename (length (objects w)) (path_join (chunkDir upload) (chunkFileName idx)) data]\<rparr>)"
| "resume now (AwaitRename a chunkPath data) w =
     w\<lparr>filesys := (filesys w)(chunkPath \<mapsto> data), waiting := waiting w @ [AwaitStat a chunkPath]\<rparr>"
| "resume now (AwaitStat a chunkPath) w =
     (case (session_at w a, filesys w chunkPath) of
        (Some upload, Some content) \<Rightarrow>
          w\<lparr>objects := (objects w)[a := upload\<lparr>receivedChunks := receivedChunks upload + 1,
                                                totalSize := totalSize upload + length content\<rparr>]\<rparr>
      | _ \<Rightarrow> w)"
| "resume now (Assembling a uid name stamp) w =
     (case session_at w a of
        None \<Rightarrow> w
      | Some upload \<Rightarrow>
          (let finalPath = js ''uploads/'' @ nat_digits stamp @ [45] @ name
           in case merge_chunks (filesys w) (chunkDir upload) (chunk_indices (totalChunks upload)) of
                Inr content \<Rightarrow>
                  w\<lparr>filesys := rm_dir (chunkDir upload) ((filesys w)(finalPath \<mapsto> content)),
                    refs := (refs w)(uid := None)\<rparr>
              | Inl missing \<Rightarrow>
                  w\<lparr>filesys := rm_dir (chunkDir upload) ((filesys w)(finalPath := None)),
                    refs := (refs w)(uid := None)\<rparr>))"

text \<open>
  What the event loop does next: a request arrives, or the \<open>k\<close>-th waiting handler
  goes on. \<open>assemblies a\<close> counts the finalize calls that are admitted to the assembly
  with the record \<open>a\<close>.
\<close>

datatype handler_step =
    ChunkArrives chunk_request
  | FinalizeArrives nat jsstring jsstring
  | Resumes nat nat

fun handle :: "handler_step \<Rightarrow> upload_world \<Rightarrow> upload_world" where
  "handle (ChunkArrives req) w = chunk_begin req w"
| "handle (FinalizeArrives now uid name) w = snd (finalize_head now uid name w)"
| "handle (Resumes k now) w =
     (if k < length (waiting w)
      then resume now (waiting w ! k) (w\<lparr>waiting := take k (waiting w) @ drop (Suc k) (waiting w)\<rparr>)
      else w)"

fun handle_all :: "handler_step list \<Rightarrow> upload_world \<Rightarrow> upload_world" where
  "handle_all [] w = w"
| "handle_all (ev # evs) w = handle_all evs (handle ev w)"

fun assemblies :: "nat \<Rightarrow> handler_step list \<Rightarrow> upload_world \<Rightarrow> nat" where
  "assemblies a [] w = 0"
| "assemblies a (FinalizeArrives now uid name # evs) w =
     (if fst (finalize_head now uid name w) = Inr a then 1 else 0)
     + assemblies a evs (handle (FinalizeArrives now uid name) w)"
| "assemblies a (ChunkArrives req # evs) w = assemblies a evs (handle (ChunkArrives req) w)"
| "assemblies a (Resumes k now # evs) w = assemblies a evs (handle (Resumes k now) w)"

section \<open>Processing jobs\<close>

datatype job_status = Processing | Completed | Error

datatype aspect = R16x9 | R9x16

text \<open>
  The entries of a job's error list: a failed clip (its counter and aspect ratio),
  \<^verbatim>\<open>Failed to generate GIFs\<close>, \<^verbatim>\<open>Failed to generate thumbnails\<close>,
  \<^verbatim>\<open>Failed to generate Canvas loops\<close>, \<^verbatim>\<open>Processing cancelled by user\<close>.
\<close>

datatype job_error =
    ClipFailed nat aspect
  | GifsFailed
  | ThumbnailsFailed
  | CanvasFailed
  | CancelledByUser

text \<open>
  An entry of \<^verbatim>\<open>processingJobs\<close> (the start time is left out). The field
  \<open>job_errors\<close> is \<^verbatim>\<open>errors\<close> in the source.
\<close>

record job =
  totalClips :: nat
  totalGifs :: nat
  totalThumbnails :: nat
  totalCanvas :: nat
  totalOutputs :: nat
  currentClip :: nat
  progress :: int
  status :: job_status
  job_errors :: "job_error list"
  totalItems :: "nat option"
  downloadPath :: "jsstring option"

type_synonym registry = "nat \<rightharpoonup> job"

text \<open>\<^verbatim>\<open>Math.round((a / b) * 100)\<close> for a positive \<open>b\<close>.\<close>

definition percent :: "nat \<Rightarrow> nat \<Rightarrow> int" where
  "percent a b = \<lfloor>(of_nat a / of_nat b :: rat) * 100 + 1 / 2\<rfloor>"

text \<open>
  \<^verbatim>\<open>Math.min(95, Math.round((completedItems / job.totalOutputs) * 100))\<close>, where
  \<open>completedItems\<close> is positive: a zero total gives \<^verbatim>\<open>Infinity\<close>, capped at 95.
\<close>

definition unit_progress :: "nat \<Rightarrow> nat \<Rightarrow> int" where
  "unit_progress completedItems outputs =
     (if outputs = 0 then 95 else min 95 (percent completedItems outputs))"

text \<open>
  The writes of a processing request to the registry, in the order they happen:
  \<^item> \<open>SetJob j\<close>: \<^verbatim>\<open>processingJobs.set(videoId, j)\<close>;
  \<^item> \<open>ClipStart c p\<close>: before clip \<open>c\<close>, \<^verbatim>\<open>job.currentClip = c; job.progress = p\<close>;
  \<^item> \<open>StageStart p\<close>: at the start of an export stage,
    \<^verbatim>\<open>job.status = 'processing'; job.progress = p\<close>;
  \<^item> \<open>GifDone i\<close>, \<open>ThumbDone i\<close>: the callback of finished GIF or thumbnail \<open>i\<close>
    (from 0);
  \<^item> \<open>CanvasDone n\<close>: the callback of a finished canvas loop when \<open>n\<close> loops have
    ended.
  Every write but the first reads the entry with \<^verbatim>\<open>processingJobs.get\<close> and does
  nothing when there is none.
\<close>

datatype job_write =
    SetJob job
  | ClipStart nat int
  | StageStart int
  | GifDone nat
  | ThumbDone nat
  | CanvasDone nat

fun apply_write :: "nat \<Rightarrow> job_write \<Rightarrow> registry \<Rightarrow> registry" where
  "apply_write videoId (SetJob j) reg = reg(videoId \<mapsto> j)"
| "apply_write videoId (ClipStart c p) reg =
     (case reg videoId of
        None \<Rightarrow> reg
      | Some j \<Rightarrow> reg(videoId \<mapsto> j\<lparr>currentClip := c, progress := p\<rparr>))"
| "apply_write videoId (StageStart p) reg =
     (case reg videoId of
        None \<Rightarrow> reg
      | Some j \<Rightarrow> reg(videoId \<mapsto> j\<lparr>status := Processing, progress := p\<rparr>))"
| "apply_write videoId (GifDone i) reg =
     (case reg videoId of
        None \<Rightarrow> reg
      | Some j \<Rightarrow> reg(videoId \<mapsto>
          j\<lparr>progress := unit_progress (totalClips j + (i + 1)) (totalOutputs j)\<rparr>))"
| "apply_write videoId (ThumbDone i) reg =
     (case reg videoId of
        None \<Rightarrow> reg
      | Some j \<Rightarrow> reg(videoId \<mapsto>
          j\<lparr>progress := unit_progress (totalClips j + totalGifs j + (i + 1)) (totalOutputs j)\<rparr>))"
| "apply_write videoId (CanvasDone n) reg =
     (case reg videoId of
        None \<Rightarrow> reg
      | Some j \<Rightarrow> reg(videoId \<mapsto>
          j\<lparr>progress := unit_progress
                 (totalClips j + totalGifs j + totalThumbnails j + n) (totalOutputs j)\<rparr>))"


text \<open>
  The successive registries a poll can see while the writes happen: the one before
  the first write and the one after each write.
\<close>

fun observable :: "nat \<Rightarrow> job_write list \<Rightarrow> registry \<Rightarrow> registry list" where
  "observable videoId [] reg = [reg]"
| "observable videoId (w # ws) reg = reg # observable videoId ws (apply_write videoId w reg)"



text \<open>
  \<^verbatim>\<open>POST /api/cancel-processing/:videoId\<close>: whatever the status of the entry, it
  becomes \<open>Error\<close> and one note is appended.
\<close>

datatype cancel_response = NoJobFound | CancelledSuccessfully

definition cancel_processing :: "nat \<Rightarrow> registry \<Rightarrow> cancel_response \<times> registry" where
  "cancel_processing videoId reg =
     (case reg videoId of
        None \<Rightarrow> (NoJobFound, reg)
      | Some j \<Rightarrow>
          (CancelledSuccessfully,
           reg(videoId \<mapsto> j\<lparr>status := Error, job_errors := job_errors j @ [CancelledByUser]\<rparr>)))"

fun cancel_times :: "nat \<Rightarrow> nat \<Rightarrow> registry \<Rightarrow> registry" where
  "cancel_times 0 videoId reg = reg"
| "cancel_times (Suc n) videoId reg = cancel_times n videoId (snd (cancel_processing videoId reg))"

section \<open>The processing request\<close>

record video =
  originalName :: jsstring
  duration :: "jsstring option"

record process_request =
  videoId :: "nat option"
  timestampText :: "jsstring option"
  outputName :: "jsstring option"
  generateGif :: bool
  generateThumbnails :: bool
  generateCanvas :: bool
  aspectRatios :: "aspect list"

text \<open>
  The transcoder is outside the server. \<open>clip_ok c\<close> tells whether the clip with
  counter \<open>c\<close> is encoded and recorded. For an export, \<open>None\<close> is a rejected promise;
  otherwise the list holds the units that finished before the export resolved, in
  the order they finished: the indices of the written GIFs and thumbnails, and for
  the canvas loops the index of each ended loop with whether it was written.
\<close>

record transcoder =
  clip_ok :: "nat \<Rightarrow> bool"
  gif_export :: "nat list option"
  thumbnail_export :: "nat list option"
  canvas_export :: "(nat \<times> bool) list option"

datatype artifact =
    ClipFile nat aspect
  | GifFile nat
  | ThumbFile nat
  | CanvasFile nat

datatype process_response =
    VideoIdRequired
  | NothingRequested
  | VideoNotFound
  | NoValidTimestamps "verror list"
  | NoContentGenerated "job_error list"
  | Processed "artifact list" jsstring "job_error list"

text \<open>\<^verbatim>\<open>originalName.replace(/\.[^/.]+$/, '')\<close>: the last extension is dropped.\<close>

definition strip_extension :: "jsstring \<Rightarrow> jsstring" where
  "strip_extension s =
     (let ext = takeWhile (\<lambda>c. c \<noteq> 46) (rev s)
      in if length ext < length s \<and> ext \<noteq> [] \<and> 47 \<notin> set ext
         then take (length s - length ext - 1) s else s)"

definition finalOutputName :: "process_request \<Rightarrow> video \<Rightarrow> jsstring" where
  "finalOutputName req v =
     (case outputName req of
        None \<Rightarrow> strip_extension (originalName v)
      | Some n \<Rightarrow> (if n = [] then strip_extension (originalName v) else n))"

definition exports_requested :: "process_request \<Rightarrow> bool" where
  "exports_requested req = (generateGif req \<or> generateThumbnails req \<or> generateCanvas req)"

text \<open>
  The checks before the job is registered. \<^verbatim>\<open>!videoId\<close> also holds for the
  number 0, \<^verbatim>\<open>!timestampText\<close> for the empty string; the text is parsed when it is
  not blank.
\<close>

definition admission :: "process_request \<Rightarrow> video option \<Rightarrow> process_response + (nat \<times> video \<times> validation)" where
  "admission req found =
     (case videoId req of
        None \<Rightarrow> Inl VideoIdRequired
      | Some vid \<Rightarrow>
          if vid = 0 then Inl VideoIdRequired
          else if (timestampText req = None \<or> timestampText req = Some [])
                  \<and> \<not> exports_requested req
          then Inl NothingRequested
          else (case found of
                  None \<Rightarrow> Inl VideoNotFound
                | Some v \<Rightarrow>
                    (case timestampText req of
                       None \<Rightarrow> Inr (vid, v, \<lparr>valid = [], errors = [], warnings = []\<rparr>)
                     | Some txt \<Rightarrow>
                         if js_trim txt = []
                         then Inr (vid, v, \<lparr>valid = [], errors = [], warnings = []\<rparr>)
                         else let validatedResult =
                                    validateTimestamps (parseTimestamps txt) (duration v)
                              in if valid validatedResult = [] \<and> \<not> exports_requested req
                                 then Inl (NoValidTimestamps (errors validatedResult))
                                 else Inr (vid, v, validatedResult))))"

text \<open>
  The clip loop: ranges outside, aspect ratios inside, \<open>clipCounter\<close> incremented
  before each clip. The result holds the writes, the produced files and the errors.
\<close>

fun clips_stage :: "transcoder \<Rightarrow> nat \<Rightarrow> nat \<Rightarrow> (nat \<times> aspect) list \<Rightarrow> job_write list \<times> artifact list \<times> job_error list" where
  "clips_stage enc clips clipCounter [] = ([], [], [])"
| "clips_stage enc clips clipCounter ((i, aspectRatio) # rest) =
     (let c = clipCounter + 1;
          (ws, files, errs) = clips_stage enc clips c rest
      in (ClipStart c (percent c clips) # ws,
          (if clip_ok enc c then [ClipFile (i + 1) aspectRatio] else []) @ files,
          (if clip_ok enc c then [] else [ClipFailed c aspectRatio]) @ errs))"

definition clip_pairs :: "nat \<Rightarrow> aspect list \<Rightarrow> (nat \<times> aspect) list" where
  "clip_pairs n ratios = concat (map (\<lambda>i. map (\<lambda>r. (i, r)) ratios) [0 ..< n])"

text \<open>
  \<^verbatim>\<open>generateGifExport\<close> starts \<^verbatim>\<open>Math.min(10, Math.floor(durationSeconds / 6))\<close>
  GIFs, with 60 seconds when the duration is unknown, and returns the written ones in
  index order.
\<close>

definition numGifs :: "jsstring option \<Rightarrow> jsnum" where
  "numGifs videoDuration =
     (let durationSeconds =
            (case videoDuration of
               None \<Rightarrow> Fin 60
             | Some d \<Rightarrow> (if d = [] then Fin 60 else timestampToSeconds d))
      in Math_min (Fin 10) (Math_floor (js_div durationSeconds 6)))"

definition started :: "jsnum \<Rightarrow> nat list \<Rightarrow> nat list" where
  "started n done = remdups (filter (\<lambda>i. js_lt (Fin (of_nat i)) n) done)"

definition gif_stage :: "transcoder \<Rightarrow> process_request \<Rightarrow> video \<Rightarrow> nat \<Rightarrow> nat \<Rightarrow> job_write list \<times> artifact list \<times> job_error list" where
  "gif_stage enc req v nvalid items =
     (if generateGif req
      then (case gif_export enc of
              None \<Rightarrow> ([StageStart (percent nvalid items)], [], [GifsFailed])
            | Some done \<Rightarrow>
                (let fin = started (numGifs (duration v)) done
                 in (StageStart (percent nvalid items) # map GifDone fin,
                     map GifFile (filter (\<lambda>i. i \<in> set fin) [0 ..< 10]), [])))
      else ([], [], []))"

definition thumbnail_stage :: "transcoder \<Rightarrow> process_request \<Rightarrow> nat \<Rightarrow> nat \<Rightarrow> job_write list \<times> artifact list \<times> job_error list" where
  "thumbnail_stage enc req nvalid items =
     (if generateThumbnails req
      then (let itemsCompleted = nvalid + (if generateGif req then 1 else 0)
            in case thumbnail_export enc of
                 None \<Rightarrow> ([StageStart (percent itemsCompleted items)], [], [ThumbnailsFailed])
               | Some done \<Rightarrow>
                   (let fin = started (Fin 10) done
                    in (StageStart (percent itemsCompleted items) # map ThumbDone fin,
                        map ThumbFile (filter (\<lambda>i. i \<in> set fin) [0 ..< 10]), [])))
      else ([], [], []))"

text \<open>
  The canvas callbacks count every ended loop in \<open>completed\<close>; only a written loop
  updates the progress and adds its path.
\<close>

fun canvas_callbacks :: "nat \<Rightarrow> (nat \<times> bool) list \<Rightarrow> job_write list \<times> artifact list" where
  "canvas_callbacks completed [] = ([], [])"
| "canvas_callbacks completed ((i, ok) # rest) =
     (let (ws, files) = canvas_callbacks (completed + 1) rest
      in if ok then (CanvasDone (completed + 1) # ws, CanvasFile i # files) else (ws, files))"

definition canvas_ended :: "(nat \<times> bool) list \<Rightarrow> (nat \<times> bool) list" where
  "canvas_ended done = filter (\<lambda>(i, ok). i < 5) (take 5 done)"

text \<open>
  \<^verbatim>\<open>timestampToSeconds(video.duration)\<close> throws when the duration is unknown, which
  the stage reports as its failure.
\<close>

definition canvas_stage :: "transcoder \<Rightarrow> process_request \<Rightarrow> video \<Rightarrow> nat \<Rightarrow> nat \<Rightarrow> job_write list \<times> artifact list \<times> job_error list" where
  "canvas_stage enc req v nvalid items =
     (if generateCanvas req
      then (let itemsCompleted = nvalid + (if generateGif req then 1 else 0)
                                        + (if generateThumbnails req then 1 else 0)
            in case (duration v, canvas_export enc) of
                 (Some d, Some done) \<Rightarrow>
                   (let (ws, files) = canvas_callbacks 0 (canvas_ended done)
                    in (StageStart (percent itemsCompleted items) # ws, files, []))
               | _ \<Rightarrow> ([StageStart (percent itemsCompleted items)], [], [CanvasFailed]))
      else ([], [], []))"

definition zipSuffix :: "process_request \<Rightarrow> nat \<Rightarrow> jsstring" where
  "zipSuffix req nvalid =
     (if nvalid > 0 then js ''clips''
      else if generateCanvas req then js ''canvas''
      else if generateGif req \<and> generateThumbnails req then js ''exports''
      else if generateGif req then js ''gifs''
      else if generateThumbnails req then js ''thumbnails''
      else js ''clips'')"

definition initial_job :: "process_request \<Rightarrow> nat \<Rightarrow> job" where
  "initial_job req nvalid =
     (let clips = nvalid * length (aspectRatios req);
          gifs = (if generateGif req then 10 else 0);
          thumbs = (if generateThumbnails req then 10 else 0);
          canvas = (if generateCanvas req then 5 else 0)
      in \<lparr>totalClips = clips, totalGifs = gifs, totalThumbnails = thumbs, totalCanvas = canvas,
          totalOutputs = clips + gifs + thumbs + canvas,
          currentClip = 0, progress = 0, status = Processing, job_errors = [],
          totalItems = Some (clips + (if generateGif req then 1 else 0)
                                   + (if generateThumbnails req then 1 else 0)
                                   + (if generateCanvas req then 1 else 0)),
          downloadPath = None\<rparr>)"

definition completed_job :: "process_request \<Rightarrow> nat \<Rightarrow> job_error list \<Rightarrow> jsstring \<Rightarrow> job" where
  "completed_job req nvalid errs path =
     (let gifs = (if generateGif req then 10 else 0);
          thumbs = (if generateThumbnails req then 10 else 0);
          canvas = (if generateCanvas req then 5 else 0)
      in \<lparr>totalClips = nvalid, totalGifs = gifs, totalThumbnails = thumbs, totalCanvas = canvas,
          totalOutputs = nvalid + gifs + thumbs + canvas,
          currentClip = nvalid, progress = 100, status = Completed, job_errors = errs,
          totalItems = None, downloadPath = Some path\<rparr>)"

text \<open>The four stages in order: their writes, the produced files, the errors.\<close>

definition stages :: "transcoder \<Rightarrow> process_request \<Rightarrow> video \<Rightarrow> nat \<Rightarrow> job_write list \<times> artifact list \<times> job_error list" where
  "stages enc req v nvalid =
     (let start = initial_job req nvalid;
          items = (case totalItems start of None \<Rightarrow> 0 | Some n \<Rightarrow> n);
          (w1, f1, e1) = clips_stage enc (totalClips start) 0 (clip_pairs nvalid (aspectRatios req));
          (w2, f2, e2) = gif_stage enc req v nvalid items;
          (w3, f3, e3) = thumbnail_stage enc req nvalid items;
          (w4, f4, e4) = canvas_stage enc req v nvalid items
      in (w1 @ w2 @ w3 @ w4, f1 @ f2 @ f3 @ f4, e1 @ e2 @ e3 @ e4))"

text \<open>
  The body of \<^verbatim>\<open>POST /api/process-clips-direct\<close> after the checks: the entry is
  registered, the stages run, and with no file at all the request answers
  \<open>NoContentGenerated\<close> and returns; otherwise the archive is written and the entry
  is replaced by the completed one.
\<close>

definition run_job :: "transcoder \<Rightarrow> process_request \<Rightarrow> video \<Rightarrow> validation \<Rightarrow> process_response \<times> job_write list" where
  "run_job enc req v validatedResult =
     (let nvalid = length (valid validatedResult);
          (ws, processedClips, errs) = stages enc req v nvalid
      in if processedClips = []
         then (NoContentGenerated errs, SetJob (initial_job req nvalid) # ws)
         else (let path = js ''/api/download/'' @ finalOutputName req v @ [45]
                            @ zipSuffix req nvalid @ js ''.zip''
               in (Processed processedClips path errs,
                   SetJob (initial_job req nvalid) # ws
                     @ [SetJob (completed_job req nvalid errs path)])))"

definition process_clips_direct :: "transcoder \<Rightarrow> process_request \<Rightarrow> video option \<Rightarrow> process_response \<times> job_write list" where
  "process_clips_direct enc req found =
     (case admission req found of
        Inl response \<Rightarrow> (response, [])
      | Inr (vid, v, validatedResult) \<Rightarrow> run_job enc req v validatedResult)"

text \<open>
  The status and percent of the job's entry in each of a list of registries, as
  successive polls report them.
\<close>

definition progress_log :: "nat \<Rightarrow> registry list \<Rightarrow> (job_status \<times> int) list" where
  "progress_log vid regs =
     concat (map (\<lambda>reg. case reg vid of None \<Rightarrow> [] | Some j \<Rightarrow> [(status j, progress j)]) regs)"

section \<open>The parser of the client\<close>

text \<open>
  The client carries its own \<^verbatim>\<open>normalizeTimestamp\<close>: the same pattern and the same
  binding of the groups, followed by a check of the two leading fields against 60.
\<close>

definition client_normalizeTimestamp :: "jsstring \<Rightarrow> jsstring option" where
  "client_normalizeTimestamp input =
     (let t = map (\<lambda>c. if c = 59 \<or> c = 46 then 58 else c) (js_trim input)
      in case timePattern t of
           None \<Rightarrow> None
         | Some (minutes, seconds, hours) \<Rightarrow>
             (let mins = js_parseInt (Some minutes);
                  secs = js_parseInt (Some seconds);
                  hrs = (case hours of None \<Rightarrow> Fin 0 | Some h \<Rightarrow> js_parseInt (Some h))
              in if js_ge secs (Fin 60) \<or> js_ge mins (Fin 60) then None
                 else (case hours of
                         Some h \<Rightarrow> Some (pad2 hrs @ [58] @ pad2 mins @ [58] @ pad2 secs)
                       | None \<Rightarrow> Some (js ''00:'' @ pad2 mins @ [58] @ pad2 secs))))"

section \<open>Notions used in the statements\<close>

text \<open>A timestamp in the form \<^verbatim>\<open>HH:MM:SS\<close> with minutes and seconds below 60.\<close>

definition is_hms :: "jsstring \<Rightarrow> bool" where
  "is_hms t =
     (case t of
        [h1, h2, c1, m1, m2, c2, s1, s2] \<Rightarrow>
          is_digit h1 \<and> is_digit h2 \<and> c1 = 58 \<and> is_digit m1 \<and> is_digit m2 \<and> c2 = 58
          \<and> is_digit s1 \<and> is_digit s2 \<and> digits_val [m1, m2] < 60 \<and> digits_val [s1, s2] < 60
      | _ \<Rightarrow> False)"

text \<open>The two decimal digits of a number below 100.\<close>

definition two_digits :: "nat \<Rightarrow> jsstring" where
  "two_digits k = [48 + k div 10, 48 + k mod 10]"



text \<open>
  The sessions as \<^verbatim>\<open>chunkStore\<close> shows them, and the files. References are sound
  when each points to a record and no two \<open>uploadId\<close>s share one.
\<close>

definition snapshot :: "upload_world \<Rightarrow> upload_server" where
  "snapshot w =
     \<lparr>chunkStore = (\<lambda>uid. case refs w uid of None \<Rightarrow> None | Some a \<Rightarrow> session_at w a),
      disk = filesys w\<rparr>"

definition refs_sound :: "upload_world \<Rightarrow> bool" where
  "refs_sound w =
     ((\<forall>u b. refs w u = Some b \<longrightarrow> b < length (objects w))
      \<and> (\<forall>u v b. refs w u = Some b \<and> refs w v = Some b \<longrightarrow> u = v))"


subsection \<open>Sample inputs\<close>


text \<open>Chunk \<open>idx\<close> of an upload \<^verbatim>\<open>abc\<close> declared with \<open>n\<close> chunks.\<close>

definition sample_chunk :: "string \<Rightarrow> string \<Rightarrow> chunk_request" where
  "sample_chunk idx n =
     \<lparr>chunkIndex = Some (js idx), req_totalChunks = Some (js n), uploadId = Some (js ''abc''),
      req_fileName = Some (js ''song.mp4''), chunk = Some [1, 2, 3]\<rparr>"

text \<open>
  The server before any request, and after chunk 0 of the upload \<^verbatim>\<open>abc\<close>,
  declared with \<open>n\<close> chunks, has been handled to its answer.
\<close>

definition no_requests :: upload_world where
  "no_requests = \<lparr>objects = [], refs = Map.empty, filesys = Map.empty, waiting = []\<rparr>"


text \<open>One range, one aspect ratio and the GIF export, on a 40 second video.\<close>

definition sample_request :: process_request where
  "sample_request =
     \<lparr>videoId = Some 1, timestampText = Some (js ''0:16-0:35''), outputName = None,
      generateGif = True, generateThumbnails = False, generateCanvas = False,
      aspectRatios = [R16x9]\<rparr>"

definition sample_video :: video where
  "sample_video = \<lparr>originalName = js ''song.mp4'', duration = Some (js ''0:40'')\<rparr>"

definition all_succeed :: transcoder where
  "all_succeed =
     \<lparr>clip_ok = (\<lambda>c. True), gif_export = Some [0, 1, 2, 3, 4, 5],
      thumbnail_export = Some [0, 1, 2, 3, 4, 5, 6, 7, 8, 9],
      canvas_export = Some [(0, True), (1, True), (2, True), (3, True), (4, True)]\<rparr>"


definition finished_job :: job where
  "finished_job =
     \<lparr>totalClips = 1, totalGifs = 0, totalThumbnails = 0, totalCanvas = 0, totalOutputs = 1,
      currentClip = 1, progress = 100, status = Completed, job_errors = [],
      totalItems = None, downloadPath = Some (js ''/api/download/song-clips.zip'')\<rparr>"

section \<open>Evaluation on concrete inputs\<close>

lemma split_runs_Nil: "split_runs sep [] = [[]]"
  by (simp add: split_runs.simps)

lemma split_runs_Cons:
  "split_runs sep (c # s) =
     (if sep c then [] # split_runs sep (dropWhile sep s)
      else (case split_runs sep s of [] \<Rightarrow> [[c]] | p # ps \<Rightarrow> (c # p) # ps))"
  by (subst split_runs.simps, subst (3) split_runs.simps) (simp add: Let_def)

lemma nat_digits_small: "n < 10 \<Longrightarrow> nat_digits n = [48 + n]"
  by (simp add: nat_digits.simps)

lemma nat_digits_large: "\<not> n < 10 \<Longrightarrow> nat_digits n = nat_digits (n div 10) @ [48 + n mod 10]"
  by (subst nat_digits.simps) simp

lemmas parse_eval =
  js_def parseTimestamps_def parse_line_def split_runs_Nil split_runs_Cons is_range_sep_def
  is_ws_def js_trim_def normalizeTimestamp_def is_digit_def padStart_def

lemmas seconds_eval =
  js_def timestampToSeconds_def js_Number_def js_trim_def is_ws_def unsigned_decimal_def
  is_digit_def digits_val_def

lemmas validate_eval =
  validateTimestamps_def black_frame_warnings_def trunc_def Let_def

lemma parse_two_lines:
  "parseTimestamps (js ''0:16-0:35\<newline>0:44-1:01'') =
     [\<lparr>startTime = js ''00:00:16'', endTime = js ''00:00:35''\<rparr>,
      \<lparr>startTime = js ''00:00:44'', endTime = js ''00:01:01''\<rparr>]"
  by (simp add: parse_eval)

lemma seconds_16: "timestampToSeconds (js ''00:00:16'') = Fin 16"
  by (simp add: seconds_eval)

lemma seconds_35: "timestampToSeconds (js ''00:00:35'') = Fin 35"
  by (simp add: seconds_eval)

lemma seconds_44: "timestampToSeconds (js ''00:00:44'') = Fin 44"
  by (simp add: seconds_eval)

lemma seconds_61: "timestampToSeconds (js ''00:01:01'') = Fin 61"
  by (simp add: seconds_eval)

section \<open>Parsing and validating time ranges\<close>

text \<open>
  C7. The two-line text \<^verbatim>\<open>0:16-0:35\<close>, \<^verbatim>\<open>0:44-1:01\<close> with no known duration gives
  the two normalized ranges in input order, no error, and exactly two warnings: the
  exact-second warning of clip 1 and that of clip 2.
\<close>

theorem two_ranges_two_warnings:
  "validateTimestamps (parseTimestamps (js ''0:16-0:35\<newline>0:44-1:01'')) None =
     \<lparr>valid = [\<lparr>startTime = js ''00:00:16'', endTime = js ''00:00:35''\<rparr>,
               \<lparr>startTime = js ''00:00:44'', endTime = js ''00:01:01''\<rparr>],
      errors = [],
      warnings = [ExactSecond 1 (js ''00:00:16''), ExactSecond 2 (js ''00:00:44'')]\<rparr>"
  by (simp add: parse_two_lines validate_eval seconds_16 seconds_35 seconds_44 seconds_61)

lemma validate_loop_unguarded:
  assumes "\<And>e. \<not> exceeds_duration dur e"
  shows "validate_loop dur i ts acc = validate_loop None i ts acc"
  using assms by (induction ts arbitrary: i acc) (simp_all add: Let_def)

lemma valid_validate_loop_None:
  "valid (validate_loop None i ts acc) =
     valid acc @ filter (\<lambda>t. \<not> js_ge (timestampToSeconds (startTime t)) (timestampToSeconds (endTime t))) ts"
  by (induction ts arbitrary: i acc) (simp_all add: Let_def)

lemma errors_validate_loop_None:
  "EndExceedsDuration n \<in> set (errors (validate_loop None i ts acc)) \<Longrightarrow>
     EndExceedsDuration n \<in> set (errors acc)"
proof (induction ts arbitrary: i acc)
  case Nil
  then show ?case by simp
next
  case (Cons t ts)
  show ?case
  proof (cases "js_ge (timestampToSeconds (startTime t)) (timestampToSeconds (endTime t))")
    case True
    with Cons.prems have "EndExceedsDuration n \<in> set (errors (validate_loop None (i + 1) ts
        (acc\<lparr>errors := errors acc @ [StartNotBeforeEnd (i + 1)]\<rparr>)))"
      by (simp add: Let_def)
    from Cons.IH [OF this] show ?thesis by simp
  next
    case False
    with Cons.prems show ?thesis
      by (auto simp add: Let_def dest!: Cons.IH)
  qed
qed

lemma js_lt_not_ge: "js_lt a b \<Longrightarrow> \<not> js_ge a b"
  by (cases a; cases b) auto

lemma falsy_unguarded: "\<not> truthy_num (timestampToSeconds d) \<Longrightarrow> \<not> exceeds_duration (videoDurationSeconds (Some d)) e"
  by simp

text \<open>
  C9. When the known duration converts to a number that is not truthy (zero, as for
  \<^verbatim>\<open>0:00\<close> or a string without two or three fields, or \<open>NaN\<close>), validation is
  the one without a duration: the accepted candidates are exactly those that pass the
  start-before-end check, so every candidate with start before end is accepted, and
  no end-exceeds-duration error is produced.
\<close>

theorem zero_duration_skips_check:
  assumes "\<not> truthy_num (timestampToSeconds d)"
  shows "validateTimestamps ts (Some d) = validateTimestamps ts None
       \<and> valid (validateTimestamps ts (Some d)) =
           filter (\<lambda>t. \<not> js_ge (timestampToSeconds (startTime t)) (timestampToSeconds (endTime t))) ts
       \<and> (\<forall>t \<in> set ts. js_lt (timestampToSeconds (startTime t)) (timestampToSeconds (endTime t))
             \<longrightarrow> t \<in> set (valid (validateTimestamps ts (Some d))))
       \<and> (\<forall>n. EndExceedsDuration n \<notin> set (errors (validateTimestamps ts (Some d))))"
proof -
  have eq: "validateTimestamps ts (Some d) = validateTimestamps ts None"
    unfolding validateTimestamps_def
    using validate_loop_unguarded [of "videoDurationSeconds (Some d)"] assms falsy_unguarded
    by (metis videoDurationSeconds.simps(1))
  have v: "valid (validateTimestamps ts None) =
      filter (\<lambda>t. \<not> js_ge (timestampToSeconds (startTime t)) (timestampToSeconds (endTime t))) ts"
    by (simp add: validateTimestamps_def valid_validate_loop_None)
  have e: "\<And>n. EndExceedsDuration n \<notin> set (errors (validateTimestamps ts None))"
    using errors_validate_loop_None [of _ 0 ts "\<lparr>valid = [], errors = [], warnings = []\<rparr>"]
    by (auto simp add: validateTimestamps_def)
  show ?thesis using eq v e by (auto dest: js_lt_not_ge)
qed

lemma seconds_0_00: "timestampToSeconds (js ''0:00'') = Fin 0"
  by (simp add: seconds_eval)
lemma seconds_10: "timestampToSeconds (js ''00:00:10'') = Fin 10"
  by (simp add: seconds_eval)
lemma seconds_3540: "timestampToSeconds (js ''00:59:00'') = Fin 3540"
  by (simp add: seconds_eval)

theorem zero_duration_skips_check_witness:
  "\<not> truthy_num (timestampToSeconds (js ''0:00''))
   \<and> valid (validateTimestamps [\<lparr>startTime = js ''00:00:10'', endTime = js ''00:59:00''\<rparr>]
        (Some (js ''0:00''))) = [\<lparr>startTime = js ''00:00:10'', endTime = js ''00:59:00''\<rparr>]"
proof -
  have h: "\<not> truthy_num (timestampToSeconds (js ''0:00''))" by (simp add: seconds_0_00)
  from zero_duration_skips_check [OF h, of "[\<lparr>startTime = js ''00:00:10'', endTime = js ''00:59:00''\<rparr>]"]
  have "valid (validateTimestamps [\<lparr>startTime = js ''00:00:10'', endTime = js ''00:59:00''\<rparr>]
          (Some (js ''0:00''))) =
        filter (\<lambda>t. \<not> js_ge (timestampToSeconds (startTime t)) (timestampToSeconds (endTime t)))
          [\<lparr>startTime = js ''00:00:10'', endTime = js ''00:59:00''\<rparr>]"
    by (rule conjunct1 [OF conjunct2])
  then show ?thesis using h by (simp add: seconds_10 seconds_3540)
qed

lemma parse_75: "parseTimestamps (js ''0:75-1:90'') = [\<lparr>startTime = js ''00:00:75'', endTime = js ''00:01:90''\<rparr>]"
  by (simp add: parse_eval)
lemma seconds_75: "timestampToSeconds (js ''00:00:75'') = Fin 75"
  by (simp add: seconds_eval)
lemma seconds_150: "timestampToSeconds (js ''00:01:90'') = Fin 150"
  by (simp add: seconds_eval)

lemma client_75: "client_normalizeTimestamp (js ''0:75'') = None"
  by (simp add: client_normalizeTimestamp_def js_def js_trim_def is_ws_def is_digit_def
        parse_magnitude_def digits_val_def)

text \<open>
  C6. The line \<^verbatim>\<open>0:75-1:90\<close> has seconds fields of 75 and 90. The server's
  \<^verbatim>\<open>normalizeTimestamp\<close> accepts both, and validation lists the range as valid
  with no error; the client's \<^verbatim>\<open>normalizeTimestamp\<close> rejects \<^verbatim>\<open>0:75\<close>.
\<close>

theorem seventy_five_seconds_accepted:
  "validateTimestamps (parseTimestamps (js ''0:75-1:90'')) None =
     \<lparr>valid = [\<lparr>startTime = js ''00:00:75'', endTime = js ''00:01:90''\<rparr>],
      errors = [],
      warnings = [ExactSecond 1 (js ''00:00:75'')]\<rparr>
   \<and> client_normalizeTimestamp (js ''0:75'') = None"
  by (simp add: parse_75 validate_eval seconds_75 seconds_150 client_75)


section \<open>Progress of a job\<close>

lemma floor_numeral_div: "\<lfloor>(numeral a :: rat) / numeral b\<rfloor> = numeral a div numeral b"
  using floor_divide_of_int_eq [of "numeral a" "numeral b", where ?'a = rat] by simp

lemma parse_16: "parseTimestamps (js ''0:16-0:35'') = [\<lparr>startTime = js ''00:00:16'', endTime = js ''00:00:35''\<rparr>]"
  by (simp add: parse_eval)

lemma seconds_0_40: "timestampToSeconds (js ''0:40'') = Fin 40"
  by (simp add: seconds_eval)

lemma js_nonempty: "js ''0:40'' \<noteq> []" "js ''0:16-0:35'' \<noteq> []" "js_trim (js ''0:16-0:35'') \<noteq> []"
  by (simp_all add: js_def js_trim_def is_ws_def)

lemma sample_validation:
  "validateTimestamps (parseTimestamps (js ''0:16-0:35'')) (Some (js ''0:40'')) =
     \<lparr>valid = [\<lparr>startTime = js ''00:00:16'', endTime = js ''00:00:35''\<rparr>], errors = [],
      warnings = [ExactSecond 1 (js ''00:00:16'')]\<rparr>"
  by (simp add: parse_16 validate_eval seconds_16 seconds_35 seconds_0_40 js_nonempty)

lemma sample_admission:
  "admission sample_request (Some sample_video) =
     Inr (1, sample_video,
       \<lparr>valid = [\<lparr>startTime = js ''00:00:16'', endTime = js ''00:00:35''\<rparr>], errors = [],
        warnings = [ExactSecond 1 (js ''00:00:16'')]\<rparr>)"
  by (simp add: admission_def sample_request_def sample_video_def sample_validation js_nonempty
        exports_requested_def)

lemma sample_numGifs: "numGifs (duration sample_video) = Fin 6"
  by (simp add: numGifs_def sample_video_def js_nonempty seconds_0_40 floor_numeral_div)

lemma sample_stages:
  "stages all_succeed sample_request sample_video (Suc 0) =
     ([ClipStart 1 100, StageStart 50, GifDone 0, GifDone 1, GifDone 2, GifDone 3, GifDone 4, GifDone 5],
      [ClipFile 1 R16x9, GifFile 0, GifFile 1, GifFile 2, GifFile 3, GifFile 4, GifFile 5], [])"
  by (simp add: stages_def initial_job_def clip_pairs_def gif_stage_def thumbnail_stage_def
        canvas_stage_def sample_numGifs started_def percent_def
        sample_request_def all_succeed_def upt_conv_Cons floor_numeral_div)

lemma sample_path:
  "js ''/api/download/'' @ finalOutputName sample_request sample_video
     @ 45 # zipSuffix sample_request (Suc 0) @ js ''.zip'' = js ''/api/download/song-clips.zip''"
  by (simp add: finalOutputName_def zipSuffix_def strip_extension_def sample_request_def
        sample_video_def js_def)

lemma sample_run:
  "process_clips_direct all_succeed sample_request (Some sample_video) =
     (Processed [ClipFile 1 R16x9, GifFile 0, GifFile 1, GifFile 2, GifFile 3, GifFile 4, GifFile 5]
        (js ''/api/download/song-clips.zip'') [],
      [SetJob (initial_job sample_request 1), ClipStart 1 100, StageStart 50,
       GifDone 0, GifDone 1, GifDone 2, GifDone 3, GifDone 4, GifDone 5,
       SetJob (completed_job sample_request 1 [] (js ''/api/download/song-clips.zip''))])"
  by (simp add: process_clips_direct_def sample_admission run_job_def sample_stages sample_path
        Let_def)

lemma sample_jobs:
  "initial_job sample_request (Suc 0) =
     \<lparr>totalClips = 1, totalGifs = 10, totalThumbnails = 0, totalCanvas = 0, totalOutputs = 11,
      currentClip = 0, progress = 0, status = Processing, job_errors = [],
      totalItems = Some 2, downloadPath = None\<rparr>"
  "completed_job sample_request (Suc 0) [] p =
     \<lparr>totalClips = 1, totalGifs = 10, totalThumbnails = 0, totalCanvas = 0, totalOutputs = 11,
      currentClip = 1, progress = 100, status = Completed, job_errors = [],
      totalItems = None, downloadPath = Some p\<rparr>"
  by (simp_all add: initial_job_def completed_job_def sample_request_def)

text \<open>
  C1. One range, one aspect ratio and the GIF export on a 40 second video, with
  every unit succeeding: the successive entries of the job show 0, then 100 when the
  only clip starts, then 50 at the start of the GIF stage and 18 after the first GIF,
  all with status \<open>Processing\<close>. The percent value falls twice before the job is
  completed.
\<close>

theorem progress_falls_at_gif_stage:
  "progress_log 1 (observable 1
      (snd (process_clips_direct all_succeed sample_request (Some sample_video))) Map.empty) =
     [(Processing, 0), (Processing, 100), (Processing, 50), (Processing, 18), (Processing, 27),
      (Processing, 36), (Processing, 45), (Processing, 55), (Processing, 64), (Completed, 100)]"
  by (simp add: sample_run sample_jobs progress_log_def
        unit_progress_def percent_def floor_numeral_div)

section \<open>Cancellation\<close>

lemma cancel_processing_Some:
  "reg vid = Some j \<Longrightarrow>
     cancel_processing vid reg =
       (CancelledSuccessfully,
        reg(vid \<mapsto> j\<lparr>status := Error, job_errors := job_errors j @ [CancelledByUser]\<rparr>))"
  by (simp add: cancel_processing_def)

lemma cancel_times_Some:
  "reg vid = Some j \<Longrightarrow>
     cancel_times n vid reg vid =
       Some (j\<lparr>status := (if n = 0 then status j else Error),
               job_errors := job_errors j @ replicate n CancelledByUser\<rparr>)"
proof (induction n arbitrary: reg j)
  case 0
  then show ?case by simp
next
  case (Suc n)
  let ?j = "j\<lparr>status := Error, job_errors := job_errors j @ [CancelledByUser]\<rparr>"
  have "cancel_times (Suc n) vid reg vid = cancel_times n vid (reg(vid \<mapsto> ?j)) vid"
    using Suc.prems by (simp add: cancel_processing_Some)
  also have "\<dots> = Some (?j\<lparr>status := (if n = 0 then status ?j else Error),
                             job_errors := job_errors ?j @ replicate n CancelledByUser\<rparr>)"
    by (rule Suc.IH) simp
  finally show ?case by (simp add: replicate_app_Cons_same)
qed

text \<open>
  C8, as the code has it. A cancellation request on an existing job, whatever its
  status, sets the status to \<open>Error\<close> and appends one cancellation note; after \<open>n\<close>
  requests the error list has \<open>n\<close> more entries and every other field is unchanged.
\<close>

theorem cancel_always_marks_error:
  assumes "reg vid = Some j"
  shows "cancel_times n vid reg vid =
           Some (j\<lparr>status := (if n = 0 then status j else Error),
                   job_errors := job_errors j @ replicate n CancelledByUser\<rparr>)"
  using assms by (rule cancel_times_Some)

theorem cancel_always_marks_error_witness:
  "(Map.empty(1 \<mapsto> finished_job)) (1::nat) = Some finished_job
   \<and> map_option job_errors (cancel_times 3 1 (Map.empty(1 \<mapsto> finished_job)) 1) =
       Some [CancelledByUser, CancelledByUser, CancelledByUser]"
proof -
  have h: "(Map.empty(1 \<mapsto> finished_job)) (1::nat) = Some finished_job" by simp
  show ?thesis
    using h cancel_always_marks_error [of "Map.empty(1 \<mapsto> finished_job)" 1 finished_job 3]
    by (simp add: finished_job_def numeral_3_eq_3)
qed

text \<open>
  C8 as stated fails: cancelling a completed job with no errors turns its status
  into \<open>Error\<close> and adds a note, and a second request adds another note.
\<close>

theorem cancel_changes_completed_job:
  "status finished_job = Completed \<and> job_errors finished_job = []
   \<and> map_option status (snd (cancel_processing 1 (Map.empty(1 \<mapsto> finished_job))) 1) = Some Error
   \<and> map_option job_errors (snd (cancel_processing 1 (Map.empty(1 \<mapsto> finished_job))) 1) =
       Some [CancelledByUser]
   \<and> map_option job_errors (cancel_times 2 1 (Map.empty(1 \<mapsto> finished_job)) 1) =
       Some [CancelledByUser, CancelledByUser]"
  by (simp add: cancel_processing_def finished_job_def numeral_2_eq_2)

section \<open>A request that produces nothing\<close>














section \<open>Upload sessions\<close>








lemma js_abc: "js ''abc'' = [97, 98, 99]"
  by (simp add: js_def)

lemma js_1_2: "js ''1'' = [49]" "js ''2'' = [50]"
  by (simp_all add: js_def)

lemma not_ws_digit: "is_digit c \<Longrightarrow> \<not> is_ws c"
  by (auto simp add: is_digit_def is_ws_def)

lemma parseInt_digit:
  assumes "is_digit c"
  shows "js_parseInt (Some [c]) = Fin (of_nat (c - 48))"
proof -
  have "dropWhile is_ws [c] = [c]" using assms by (simp add: not_ws_digit)
  moreover have "c \<noteq> 45" "c \<noteq> 43" using assms by (simp_all add: is_digit_def)
  moreover have "parse_magnitude [c] = Some (c - 48)"
    using assms by (simp add: parse_magnitude_def digits_val_def)
  ultimately show ?thesis by simp
qed

lemma parseInt_1: "js_parseInt (Some (js ''1'')) = Fin 1"
  using parseInt_digit [of 49] by (simp add: js_1_2 is_digit_def)






section \<open>Finalizing an upload\<close>

subsection \<open>A set flag stays set\<close>


lemma session_at_flag_update:
  "session_at w b = Some up \<Longrightarrow>
   session_at (w\<lparr>objects := (objects w)[b := up\<lparr>finalizing := True\<rparr>], waiting := ws\<rparr>) a =
     (if a = b then Some (up\<lparr>finalizing := True\<rparr>) else session_at w a)"
  by (auto simp add: session_at_def split: if_splits)













text \<open>
  The single assembly is one per session record, not one per \<open>uploadId\<close>: two first
  chunk requests that both find no session each create a record, the second
  replacing the first under the \<open>uploadId\<close>, and each record is assembled once.
\<close>

lemma overlapping_first_chunks_two_assemblies:
  "assemblies 0
     [ChunkArrives (sample_chunk ''0'' ''1''), ChunkArrives (sample_chunk ''0'' ''1''),
      Resumes 0 5, Resumes 1 5, Resumes 1 5, FinalizeArrives 7 (js ''abc'') (js ''song.mp4''),
      Resumes 0 6, Resumes 1 6, Resumes 1 6, FinalizeArrives 8 (js ''abc'') (js ''song.mp4'')]
     no_requests = 1
   \<and> assemblies 1
     [ChunkArrives (sample_chunk ''0'' ''1''), ChunkArrives (sample_chunk ''0'' ''1''),
      Resumes 0 5, Resumes 1 5, Resumes 1 5, FinalizeArrives 7 (js ''abc'') (js ''song.mp4''),
      Resumes 0 6, Resumes 1 6, Resumes 1 6, FinalizeArrives 8 (js ''abc'') (js ''song.mp4'')]
     no_requests = 1"
  by (simp add: finalize_head_def chunk_begin_def sample_chunk_def no_requests_def js_abc
        parseInt_1 session_at_def Let_def del: js_parseInt.simps)

subsection \<open>A request handled alone\<close>

text \<open>
  References stay sound in every run from the start. On sound references the head of
  finalize is \<open>finalize_enter\<close>, and a chunk request whose handler is resumed before
  any other step is \<open>upload_chunk\<close>.
\<close>

lemma refs_sound_waiting: "refs_sound (w\<lparr>waiting := ws\<rparr>) = refs_sound w"
  by (simp add: refs_sound_def)

lemma refs_sound_filesys: "refs_sound (w\<lparr>filesys := fs\<rparr>) = refs_sound w"
  by (simp add: refs_sound_def)

lemma refs_sound_update: "refs_sound (w\<lparr>objects := (objects w)[a := up]\<rparr>) = refs_sound w"
  by (simp add: refs_sound_def)

lemma refs_sound_delete: "refs_sound w \<Longrightarrow> refs_sound (w\<lparr>refs := (refs w)(uid := None)\<rparr>)"
  unfolding refs_sound_def by (simp split: if_splits)

lemma refs_sound_create:
  assumes "refs_sound w"
  shows "refs_sound (w\<lparr>objects := objects w @ [up], refs := (refs w)(uid \<mapsto> length (objects w))\<rparr>)"
proof -
  from assms have b: "\<And>u b. refs w u = Some b \<Longrightarrow> b < length (objects w)"
    and i: "\<And>u v b. refs w u = Some b \<Longrightarrow> refs w v = Some b \<Longrightarrow> u = v"
    unfolding refs_sound_def by blast+
  show ?thesis
    unfolding refs_sound_def
    by (auto simp add: less_Suc_eq dest: b i split: if_splits)
qed

lemma resume_refs_sound:
  assumes "refs_sound w"
  shows "refs_sound (resume now h w)"
proof (cases h)
  case (AwaitMkdir req uid idx data)
  with refs_sound_create [OF assms] show ?thesis
    by (simp add: Let_def refs_sound_waiting)
next
  case (AwaitRename a p data)
  with assms show ?thesis by (simp add: refs_sound_waiting refs_sound_filesys)
next
  case (AwaitStat a p)
  with assms show ?thesis by (simp add: refs_sound_update split: option.splits)
next
  case (Assembling a uid name stamp)
  have "refs_sound (w\<lparr>filesys := fs, refs := (refs w)(uid := None)\<rparr>)" for fs
    using refs_sound_delete [OF assms, of uid] by (simp add: refs_sound_def)
  with Assembling assms show ?thesis
    by (simp add: Let_def split: option.splits sum.splits)
qed

lemma handle_refs_sound:
  assumes "refs_sound w"
  shows "refs_sound (handle ev w)"
proof (cases ev)
  case (ChunkArrives req)
  with assms show ?thesis
    by (simp add: chunk_begin_def refs_sound_waiting split: option.splits)
next
  case (FinalizeArrives now uid name)
  with assms show ?thesis
    by (simp add: finalize_head_def refs_sound_def split: option.splits)
next
  case (Resumes k now)
  with assms resume_refs_sound [of "w\<lparr>waiting := take k (waiting w) @ drop (Suc k) (waiting w)\<rparr>"]
  show ?thesis by (simp add: refs_sound_waiting)
qed

lemma handle_all_refs_sound: "refs_sound w \<Longrightarrow> refs_sound (handle_all evs w)"
  by (induction evs arbitrary: w) (simp_all add: handle_refs_sound)

lemma reachable_refs_sound: "refs_sound (handle_all evs no_requests)"
  by (rule handle_all_refs_sound) (simp add: refs_sound_def no_requests_def)

lemma snapshot_finalize_head:
  assumes "refs_sound w"
  shows "snapshot (snd (finalize_head now uid name w)) = snd (finalize_enter uid (snapshot w))"
proof (cases "refs w uid")
  case None
  then have "snd (finalize_head now uid name w) = w"
      "snd (finalize_enter uid (snapshot w)) = snapshot w"
    by (simp_all add: finalize_head_def finalize_enter_def snapshot_def)
  then show ?thesis by simp
next
  case (Some a)
  show ?thesis
  proof (cases "session_at w a")
    case None
    with Some have "snd (finalize_head now uid name w) = w"
        "snd (finalize_enter uid (snapshot w)) = snapshot w"
      by (simp_all add: finalize_head_def finalize_enter_def snapshot_def)
    then show ?thesis by simp
  next
    case (Some up)
    note up = this
    from assms have inj: "\<forall>u v b. refs w u = Some b \<and> refs w v = Some b \<longrightarrow> u = v"
      unfolding refs_sound_def by blast
    show ?thesis
    proof (cases "Fin (of_nat (receivedChunks up)) \<noteq> totalChunks up \<or> finalizing up")
      case True
      with up \<open>refs w uid = Some a\<close> have "snd (finalize_head now uid name w) = w"
          "snd (finalize_enter uid (snapshot w)) = snapshot w"
        by (auto simp add: finalize_head_def finalize_enter_def snapshot_def)
      then show ?thesis by simp
    next
      case False
      let ?w = "w\<lparr>objects := (objects w)[a := up\<lparr>finalizing := True\<rparr>],
                  waiting := waiting w @ [Assembling a uid name now]\<rparr>"
      have l: "snd (finalize_head now uid name w) = ?w"
        using False up \<open>refs w uid = Some a\<close> by (simp add: finalize_head_def)
      have r: "snd (finalize_enter uid (snapshot w)) =
                 (snapshot w)\<lparr>chunkStore := (chunkStore (snapshot w))(uid \<mapsto> up\<lparr>finalizing := True\<rparr>)\<rparr>"
        using False up \<open>refs w uid = Some a\<close> by (simp add: finalize_enter_def snapshot_def)
      have cs: "chunkStore (snapshot ?w) = (chunkStore (snapshot w))(uid \<mapsto> up\<lparr>finalizing := True\<rparr>)"
      proof (rule ext)
        fix u
        show "chunkStore (snapshot ?w) u
                = ((chunkStore (snapshot w))(uid \<mapsto> up\<lparr>finalizing := True\<rparr>)) u"
        proof (cases "refs w u")
          case None
          with \<open>refs w uid = Some a\<close> show ?thesis by (auto simp add: snapshot_def)
        next
          case (Some b)
          with inj \<open>refs w uid = Some a\<close> have "b = a \<longleftrightarrow> u = uid" by auto
          with Some up show ?thesis by (simp add: snapshot_def session_at_flag_update)
        qed
      qed
      have dk: "disk (snapshot ?w) = disk (snapshot w)"
        by (simp add: snapshot_def)
      show ?thesis unfolding l r using cs dk by (intro upload_server.equality) simp_all
    qed
  qed
qed


lemma handled_alone:
  assumes "refs_sound w"
  shows "snapshot (handle_all [ChunkArrives req, Resumes (length (waiting w)) now,
                               Resumes (length (waiting w)) now, Resumes (length (waiting w)) now] w)
         = snd (upload_chunk now req (snapshot w))"
proof (cases "\<exists>data uid idx. chunk req = Some data \<and> uploadId req = Some uid
                 \<and> chunkIndex req = Some idx \<and> uid \<noteq> []")
  case False
  then have "chunk_begin req w = w" "snd (upload_chunk now req (snapshot w)) = snapshot w"
    by (auto simp add: chunk_begin_def upload_chunk_def split: option.splits)
  then show ?thesis by simp
next
  case True
  then obtain data uid idx where
    req: "chunk req = Some data" "uploadId req = Some uid" "chunkIndex req = Some idx" "uid \<noteq> []"
    by blast
  let ?n = "length (waiting w)"
  from assms have bound: "\<forall>u b. refs w u = Some b \<longrightarrow> b < length (objects w)"
    and inj: "\<forall>u v b. refs w u = Some b \<and> refs w v = Some b \<longrightarrow> u = v"
    unfolding refs_sound_def by blast+
  show ?thesis
  proof (cases "refs w uid")
    case None
    let ?up = "\<lparr>chunkDir = path_join (path_join (js ''uploads'') (js ''chunks'')) uid,
                fileName = req_fileName req, totalSize = 0,
                totalChunks = js_parseInt (req_totalChunks req), receivedChunks = 0,
                timestamp = now, finalizing = False\<rparr>"
    let ?path = "path_join (chunkDir ?up) (chunkFileName idx)"
    let ?a = "length (objects w)"
    let ?w4 = "w\<lparr>objects := objects w @ [?up\<lparr>receivedChunks := 1, totalSize := length data\<rparr>],
                 refs := (refs w)(uid \<mapsto> ?a),
                 filesys := (filesys w)(?path \<mapsto> data)\<rparr>"
    have s1: "handle (ChunkArrives req) w = w\<lparr>waiting := waiting w @ [AwaitMkdir req uid idx data]\<rparr>"
      using req None by (simp add: chunk_begin_def)
    have s2: "handle (Resumes ?n now) (w\<lparr>waiting := waiting w @ [AwaitMkdir req uid idx data]\<rparr>)
               = w\<lparr>objects := objects w @ [?up], refs := (refs w)(uid \<mapsto> ?a),
                    waiting := waiting w @ [AwaitRename ?a ?path data]\<rparr>"
      by (simp add: Let_def)
    have s3: "handle (Resumes ?n now)
                (w\<lparr>objects := objects w @ [?up], refs := (refs w)(uid \<mapsto> ?a),
                    waiting := waiting w @ [AwaitRename ?a ?path data]\<rparr>)
               = w\<lparr>objects := objects w @ [?up], refs := (refs w)(uid \<mapsto> ?a),
                    filesys := (filesys w)(?path \<mapsto> data),
                    waiting := waiting w @ [AwaitStat ?a ?path]\<rparr>"
      by simp
    have s4: "handle (Resumes ?n now)
                (w\<lparr>objects := objects w @ [?up], refs := (refs w)(uid \<mapsto> ?a),
                    filesys := (filesys w)(?path \<mapsto> data),
                    waiting := waiting w @ [AwaitStat ?a ?path]\<rparr>) = ?w4"
      by (simp add: session_at_def)
    have l: "handle_all [ChunkArrives req, Resumes ?n now, Resumes ?n now, Resumes ?n now] w = ?w4"
      by (simp only: handle_all.simps s1 s2 s3 s4)
    have r: "snd (upload_chunk now req (snapshot w)) =
               (snapshot w)\<lparr>chunkStore := (chunkStore (snapshot w))
                               (uid \<mapsto> ?up\<lparr>receivedChunks := 1, totalSize := length data\<rparr>),
                            disk := (disk (snapshot w))(?path \<mapsto> data)\<rparr>"
      using req None by (simp add: upload_chunk_def snapshot_def Let_def)
    have cs: "chunkStore (snapshot ?w4) =
                (chunkStore (snapshot w))
                  (uid \<mapsto> ?up\<lparr>receivedChunks := 1, totalSize := length data\<rparr>)"
    proof (rule ext)
      fix u
      show "chunkStore (snapshot ?w4) u =
              ((chunkStore (snapshot w))
                 (uid \<mapsto> ?up\<lparr>receivedChunks := 1, totalSize := length data\<rparr>)) u"
      proof (cases "u = uid")
        case True
        then show ?thesis by (simp add: snapshot_def session_at_def)
      next
        case False
        show ?thesis
        proof (cases "refs w u")
          case None
          with False show ?thesis by (simp add: snapshot_def)
        next
          case (Some b)
          with bound have "b < length (objects w)" by blast
          with Some False show ?thesis by (simp add: snapshot_def session_at_def nth_append)
        qed
      qed
    qed
    have dk: "disk (snapshot ?w4) = (disk (snapshot w))(?path \<mapsto> data)"
      by (simp add: snapshot_def)
    show ?thesis unfolding l r using cs dk by (intro upload_server.equality) simp_all
  next
    case (Some a)
    with bound have a: "a < length (objects w)" by blast
    let ?up = "objects w ! a"
    let ?path = "path_join (chunkDir ?up) (chunkFileName idx)"
    let ?up' = "?up\<lparr>receivedChunks := receivedChunks ?up + 1,
                      totalSize := totalSize ?up + length data\<rparr>"
    let ?w3 = "w\<lparr>objects := (objects w)[a := ?up'], filesys := (filesys w)(?path \<mapsto> data)\<rparr>"
    have s1: "handle (ChunkArrives req) w = w\<lparr>waiting := waiting w @ [AwaitRename a ?path data]\<rparr>"
      using req Some a by (simp add: chunk_begin_def session_at_def)
    have s2: "handle (Resumes ?n now) (w\<lparr>waiting := waiting w @ [AwaitRename a ?path data]\<rparr>)
               = w\<lparr>filesys := (filesys w)(?path \<mapsto> data),
                    waiting := waiting w @ [AwaitStat a ?path]\<rparr>"
      by simp
    have s3: "handle (Resumes ?n now)
                (w\<lparr>filesys := (filesys w)(?path \<mapsto> data),
                    waiting := waiting w @ [AwaitStat a ?path]\<rparr>) = ?w3"
      using a by (simp add: session_at_def)
    have s4: "handle (Resumes ?n now) ?w3 = ?w3"
      by simp
    have l: "handle_all [ChunkArrives req, Resumes ?n now, Resumes ?n now, Resumes ?n now] w = ?w3"
      by (simp only: handle_all.simps s1 s2 s3 s4)
    have r: "snd (upload_chunk now req (snapshot w)) =
               (snapshot w)\<lparr>chunkStore := (chunkStore (snapshot w))(uid \<mapsto> ?up'),
                            disk := (disk (snapshot w))(?path \<mapsto> data)\<rparr>"
      using req Some a by (simp add: upload_chunk_def snapshot_def session_at_def Let_def)
    have cs: "chunkStore (snapshot ?w3) = (chunkStore (snapshot w))(uid \<mapsto> ?up')"
    proof (rule ext)
      fix u
      show "chunkStore (snapshot ?w3) u = ((chunkStore (snapshot w))(uid \<mapsto> ?up')) u"
      proof (cases "refs w u")
        case None
        with Some show ?thesis by (auto simp add: snapshot_def)
      next
        case (Some b)
        with inj \<open>refs w uid = Some a\<close> have "b = a \<longleftrightarrow> u = uid" by auto
        with Some a bound show ?thesis by (auto simp add: snapshot_def session_at_def)
      qed
    qed
    have dk: "disk (snapshot ?w3) = (disk (snapshot w))(?path \<mapsto> data)"
      by (simp add: snapshot_def)
    show ?thesis unfolding l r using cs dk by (intro upload_server.equality) simp_all
  qed
qed

section \<open>Random cuts\<close>

lemma plan_fits:
  assumes "6 \<le> t" and "clip_plan (Fin t) = (n, mn, mx)"
  shows "of_int n * mn \<le> t"
proof -
  have f8: "of_int \<lfloor>t / 8\<rfloor> \<le> t / 8" by (rule of_int_floor_le)
  have f15: "of_int \<lfloor>t / 15\<rfloor> \<le> t / 15" by (rule of_int_floor_le)
  have f20: "of_int \<lfloor>t / 20\<rfloor> \<le> t / 20" by (rule of_int_floor_le)
  consider "t < 30" | "30 \<le> t" "t < 60" | "60 \<le> t" "t < 120" | "120 \<le> t" by linarith
  then show ?thesis
  proof cases
    case 1
    with assms f8 show ?thesis by (auto simp add: Let_def max_def split: if_splits)
  next
    case 2
    with assms f15 show ?thesis by (auto simp add: Let_def max_def split: if_splits)
  next
    case 3
    with assms f20 show ?thesis by (auto simp add: Let_def max_def split: if_splits)
  next
    case 4
    with assms show ?thesis by auto
  qed
qed

lemma plan_below_six:
  assumes "t < 6"
  shows "\<exists>mx. clip_plan (Fin t) = (2, 3, mx)"
proof -
  have "\<lfloor>t / 8\<rfloor> \<le> 2" using assms by (simp add: floor_le_iff)
  then show ?thesis using assms by (simp add: Let_def max_def)
qed

text \<open>
  C4, as the code has it. For a duration that converts to a number \<open>t\<close>, random cut
  generation fails with the too-short error (2 clips of 3 seconds need 6 seconds)
  when \<open>t < 6\<close>, and does not fail when \<open>t \<ge> 6\<close>, whatever the random draws.
\<close>

theorem too_short_below_six_seconds:
  assumes "timestampToSeconds d = Fin t"
  shows "(t < 6 \<longrightarrow> generateRandomTimestamps rng d = Inl (VideoTooShort (Math_round (Fin t)) 6 2 3))
       \<and> (6 \<le> t \<longrightarrow> \<not> isl (generateRandomTimestamps rng d))"
proof (intro conjI impI)
  assume "t < 6"
  with plan_below_six obtain mx where "clip_plan (Fin t) = (2, 3, mx)" by blast
  with assms \<open>t < 6\<close>
  show "generateRandomTimestamps rng d = Inl (VideoTooShort (Math_round (Fin t)) 6 2 3)"
    by (simp add: generateRandomTimestamps_def)
next
  assume six: "6 \<le> t"
  obtain n mn mx where plan: "clip_plan (Fin t) = (n, mn, mx)" by (cases "clip_plan (Fin t)")
  from plan_fits [OF six plan] have "\<not> t < of_int n * mn" by simp
  with assms plan show "\<not> isl (generateRandomTimestamps rng d)"
    by (simp add: generateRandomTimestamps_def)
qed

lemma seconds_0_05: "timestampToSeconds (js ''0:05'') = Fin 5"
  by (simp add: seconds_eval)

lemma seconds_0_10: "timestampToSeconds (js ''0:10'') = Fin 10"
  by (simp add: seconds_eval)

theorem too_short_below_six_seconds_witness:
  "timestampToSeconds (js ''0:05'') = Fin 5
   \<and> generateRandomTimestamps (rng_of []) (js ''0:05'') = Inl (VideoTooShort (Fin 5) 6 2 3)
   \<and> timestampToSeconds (js ''0:10'') = Fin 10
   \<and> \<not> isl (generateRandomTimestamps (rng_of []) (js ''0:10''))"
  using too_short_below_six_seconds [OF seconds_0_05, of "rng_of []"]
    too_short_below_six_seconds [OF seconds_0_10, of "rng_of []"]
  by (simp add: seconds_0_05 seconds_0_10 floor_numeral_div)


lemma plan_10: "clip_plan (Fin 10) = (2, 3, 4)"
  by (simp add: Let_def floor_numeral_div)

lemmas print_eval =
  secondsToTimestamp_def strip_millis_def pad2_def pad3_def padStart_def int_toString_def
  nat_digits_small nat_digits_large trunc_def floor_numeral_div Let_def

lemma print_0: "strip_millis (secondsToTimestamp (Fin 0)) = [48, 48, 58, 48, 48]"
  by (simp add: print_eval)

lemma print_7_2: "strip_millis (secondsToTimestamp (Fin (7 / 2))) = [48, 48, 58, 48, 51]"
  by (simp add: print_eval)

lemma print_99_20: "strip_millis (secondsToTimestamp (Fin (99 / 20))) = [48, 48, 58, 48, 52]"
  by (simp add: print_eval)

lemma print_169_20: "strip_millis (secondsToTimestamp (Fin (169 / 20))) = [48, 48, 58, 48, 56]"
  by (simp add: print_eval)

lemma attempt_loop_50:
  "attempt_loop rng t mn mx 50 st = attempt_loop rng t mn mx (Suc 49) st"
  by simp

lemma first_clip:
  "attempt_loop (rng_of [1 / 2, 0, 1 / 2, 9 / 10]) (Fin 10) 3 4 50
     \<lparr>next_random = 0, usedRanges = [], timestamps = []\<rparr> =
   \<lparr>next_random = 2, usedRanges = [(Fin 0, Fin (7 / 2))],
    timestamps = [\<lparr>startTime = [48, 48, 58, 48, 48], endTime = [48, 48, 58, 48, 51]\<rparr>]\<rparr>"
  apply (simp only: attempt_loop_50 attempt_loop.simps)
  apply (simp add: rng_of_def Let_def print_0 print_7_2 del: attempt_loop.simps)
  done

lemma second_clip:
  "attempt_loop (rng_of [1 / 2, 0, 1 / 2, 9 / 10]) (Fin 10) 3 4 50
     \<lparr>next_random = 2, usedRanges = [(Fin 0, Fin (7 / 2))],
      timestamps = [\<lparr>startTime = [48, 48, 58, 48, 48], endTime = [48, 48, 58, 48, 51]\<rparr>]\<rparr> =
   \<lparr>next_random = 4, usedRanges = [(Fin 0, Fin (7 / 2)), (Fin (99 / 20), Fin (169 / 20))],
    timestamps = [\<lparr>startTime = [48, 48, 58, 48, 48], endTime = [48, 48, 58, 48, 51]\<rparr>,
                  \<lparr>startTime = [48, 48, 58, 48, 52], endTime = [48, 48, 58, 48, 56]\<rparr>]\<rparr>"
  apply (simp only: attempt_loop_50 attempt_loop.simps)
  apply (simp add: rng_of_def Let_def print_99_20 print_169_20 del: attempt_loop.simps)
  done

lemma start_keys:
  "start_key \<lparr>startTime = [48, 48, 58, 48, 48], endTime = e\<rparr> = 0"
  "start_key \<lparr>startTime = [48, 48, 58, 48, 52], endTime = e\<rparr> = 4"
  by (simp_all add: start_key_def timestampToSeconds_def js_Number_def js_trim_def is_ws_def
        unsigned_decimal_def is_digit_def digits_val_def)

lemma two_clips:
  "clip_loop (rng_of [1 / 2, 0, 1 / 2, 9 / 10]) (Fin 10) 3 4 (Suc (Suc 0))
     \<lparr>next_random = 0, usedRanges = [], timestamps = []\<rparr> =
   \<lparr>next_random = 4, usedRanges = [(Fin 0, Fin (7 / 2)), (Fin (99 / 20), Fin (169 / 20))],
    timestamps = [\<lparr>startTime = [48, 48, 58, 48, 48], endTime = [48, 48, 58, 48, 51]\<rparr>,
                  \<lparr>startTime = [48, 48, 58, 48, 52], endTime = [48, 48, 58, 48, 56]\<rparr>]\<rparr>"
  by (simp only: clip_loop.simps first_clip second_clip)

lemma two_clips_numeral:
  "clip_loop (rng_of [1 / 2, 0, 1 / 2, 9 / 10]) (Fin 10) 3 4 2
     \<lparr>next_random = 0, usedRanges = [], timestamps = []\<rparr> =
   \<lparr>next_random = 4, usedRanges = [(Fin 0, Fin (7 / 2)), (Fin (99 / 20), Fin (169 / 20))],
    timestamps = [\<lparr>startTime = [48, 48, 58, 48, 48], endTime = [48, 48, 58, 48, 51]\<rparr>,
                  \<lparr>startTime = [48, 48, 58, 48, 52], endTime = [48, 48, 58, 48, 56]\<rparr>]\<rparr>"
proof -
  have "(2 :: nat) = Suc (Suc 0)" by simp
  then show ?thesis using two_clips by (simp only:)
qed

lemma short_stamps:
  "js ''00:00'' = [48, 48, 58, 48, 48]" "js ''00:03'' = [48, 48, 58, 48, 51]"
  "js ''00:04'' = [48, 48, 58, 48, 52]" "js ''00:08'' = [48, 48, 58, 48, 56]"
  by (simp_all add: js_def)

lemma sorted_two:
  "sort_key start_key
     [\<lparr>startTime = [48, 48, 58, 48, 48], endTime = [48, 48, 58, 48, 51]\<rparr>,
      \<lparr>startTime = [48, 48, 58, 48, 52], endTime = [48, 48, 58, 48, 56]\<rparr>] =
     [\<lparr>startTime = [48, 48, 58, 48, 48], endTime = [48, 48, 58, 48, 51]\<rparr>,
      \<lparr>startTime = [48, 48, 58, 48, 52], endTime = [48, 48, 58, 48, 56]\<rparr>]"
  by (simp add: start_keys)

text \<open>
  C4 as stated fails: on a 10 second video, with the draws 1/2, 0, 1/2, 9/10, the
  generator returns two ranges and no error.
\<close>

theorem ten_seconds_gives_two_clips:
  "generateRandomTimestamps (rng_of [1 / 2, 0, 1 / 2, 9 / 10]) (js ''0:10'') =
     Inr [\<lparr>startTime = js ''00:00'', endTime = js ''00:03''\<rparr>,
          \<lparr>startTime = js ''00:04'', endTime = js ''00:08''\<rparr>]"
proof -
  have "generateRandomTimestamps (rng_of [1 / 2, 0, 1 / 2, 9 / 10]) (js ''0:10'') =
      Inr (sort_key start_key (timestamps
        (clip_loop (rng_of [1 / 2, 0, 1 / 2, 9 / 10]) (Fin 10) 3 4 2
           \<lparr>next_random = 0, usedRanges = [], timestamps = []\<rparr>)))"
    by (simp add: generateRandomTimestamps_def seconds_0_10 plan_10
          del: attempt_loop.simps clip_loop.simps sort_key_simps)
  then show ?thesis
    by (simp only: two_clips_numeral sorted_two short_stamps gen_state.simps)
qed



section \<open>Seconds and timestamps\<close>

lemma Number_two_digits:
  assumes "is_digit a" and "is_digit b"
  shows "js_Number [a, b] = Fin (of_nat (digits_val [a, b]))"
proof -
  have trim: "js_trim [a, b] = [a, b]"
    using assms by (simp add: js_trim_def not_ws_digit)
  have sign: "a \<noteq> 43" "a \<noteq> 45"
    using assms by (simp_all add: is_digit_def)
  have "unsigned_decimal [a, b] = Some (of_nat (digits_val [a, b]))"
    using assms by (simp add: unsigned_decimal_def)
  with trim sign show ?thesis by (simp add: js_Number_def)
qed

lemma split_hms:
  assumes "is_digit h1" "is_digit h2" "is_digit m1" "is_digit m2" "is_digit s1" "is_digit s2"
  shows "js_split 58 [h1, h2, 58, m1, m2, 58, s1, s2] = [[h1, h2], [m1, m2], [s1, s2]]"
  using assms by (simp add: is_digit_def)

lemma split_ms:
  assumes "is_digit m1" "is_digit m2" "is_digit s1" "is_digit s2"
  shows "js_split 58 [m1, m2, 58, s1, s2] = [[m1, m2], [s1, s2]]"
  using assms by (simp add: is_digit_def)

lemma seconds_hms:
  assumes "is_digit h1" "is_digit h2" "is_digit m1" "is_digit m2" "is_digit s1" "is_digit s2"
  shows "timestampToSeconds [h1, h2, 58, m1, m2, 58, s1, s2] =
           Fin (of_nat (3600 * digits_val [h1, h2] + 60 * digits_val [m1, m2] + digits_val [s1, s2]))"
  using assms
  by (simp add: timestampToSeconds_def split_hms Number_two_digits
        del: js_split.simps)

lemma seconds_ms:
  assumes "is_digit m1" "is_digit m2" "is_digit s1" "is_digit s2"
  shows "timestampToSeconds [m1, m2, 58, s1, s2] =
           Fin (of_nat (60 * digits_val [m1, m2] + digits_val [s1, s2]))"
  using assms
  by (simp add: timestampToSeconds_def split_ms Number_two_digits
        del: js_split.simps)

lemma floor_div_nat:
  "Math_floor (js_div (Fin (of_nat n)) (of_nat (Suc m))) = Fin (of_nat (n div Suc m))"
proof -
  have "\<lfloor>(of_nat n :: rat) / of_nat (Suc m)\<rfloor> = int (n div Suc m)"
    by (rule floor_divide_of_nat_eq)
  then show ?thesis by (simp del: of_nat_Suc)
qed

lemma rem_nat:
  "js_rem (Fin (of_nat n)) (of_nat (Suc m)) = Fin (of_nat (n mod Suc m))"
proof -
  have nonneg: "0 \<le> (of_nat n :: rat) / of_nat (Suc m)"
    by (simp del: of_nat_Suc)
  have fl: "\<lfloor>(of_nat n :: rat) / of_nat (Suc m)\<rfloor> = int (n div Suc m)"
    by (rule floor_divide_of_nat_eq)
  have "(of_nat n :: rat) - of_nat (Suc m) * of_nat (n div Suc m) = of_nat (n mod Suc m)"
  proof -
    have "Suc m * (n div Suc m) + n mod Suc m = n" by (rule mult_div_mod_eq)
    then have "(of_nat n :: rat) = of_nat (Suc m * (n div Suc m) + n mod Suc m)" by (simp only:)
    then show ?thesis by (simp only: of_nat_add of_nat_mult)
  qed
  with nonneg fl show ?thesis
    by (simp add: trunc_def del: of_nat_Suc)
qed

lemma floor_div_3600: "Math_floor (js_div (Fin (of_nat n)) 3600) = Fin (of_nat (n div 3600))"
  using floor_div_nat [of n 3599] by simp

lemma floor_div_60: "Math_floor (js_div (Fin (of_nat n)) 60) = Fin (of_nat (n div 60))"
  using floor_div_nat [of n 59] by simp

lemma rem_3600: "js_rem (Fin (of_nat n)) 3600 = Fin (of_nat (n mod 3600))"
  using rem_nat [of n 3599] by simp

lemma rem_60: "js_rem (Fin (of_nat n)) 60 = Fin (of_nat (n mod 60))"
  using rem_nat [of n 59] by simp

lemma rem_1: "js_rem (Fin (of_nat n)) 1 = Fin 0"
  using rem_nat [of n 0] by simp

lemma floor_nat: "Math_floor (Fin (of_nat n)) = Fin (of_nat n)"
  by simp

lemma pad2_nat:
  assumes "k < 100"
  shows "pad2 (Fin (of_nat k)) = two_digits k"
proof (cases "k < 10")
  case True
  then show ?thesis
    by (simp add: pad2_def int_toString_def nat_digits_small padStart_def two_digits_def)
next
  case False
  with assms have "k div 10 < 10" by simp
  with False show ?thesis
    by (simp add: pad2_def int_toString_def nat_digits_large nat_digits_small padStart_def
          two_digits_def)
qed

lemma pad3_zero: "pad3 (Fin 0) = [48, 48, 48]"
  by (simp add: pad3_def int_toString_def nat_digits_small padStart_def numeral_2_eq_2)

lemma floor_zero: "Math_floor (Fin 0) = Fin 0"
  by simp

lemma print_nat:
  "secondsToTimestamp (Fin (of_nat n)) =
     (if 0 < n div 3600
      then pad2 (Fin (of_nat (n div 3600))) @ [58] @ pad2 (Fin (of_nat (n mod 3600 div 60)))
           @ [58] @ pad2 (Fin (of_nat (n mod 60))) @ [46, 48, 48, 48]
      else pad2 (Fin (of_nat (n mod 3600 div 60))) @ [58] @ pad2 (Fin (of_nat (n mod 60)))
           @ [46, 48, 48, 48])"
  by (simp add: secondsToTimestamp_def Let_def floor_div_3600 floor_div_60 rem_3600 rem_60 rem_1
        floor_nat floor_zero pad3_zero
        del: Math_floor.simps js_div.simps js_rem.simps)


lemma two_digits_of_digits:
  assumes "is_digit a" and "is_digit b"
  shows "two_digits (digits_val [a, b]) = [a, b]"
proof -
  have "a = 48 + (a - 48)" "b = 48 + (b - 48)" "a - 48 < 10" "b - 48 < 10"
    using assms unfolding is_digit_def by arith+
  then obtain x y where xy: "a = 48 + x" "b = 48 + y" "x < 10" "y < 10" by blast
  then show ?thesis by (simp add: two_digits_def digits_val_def)
qed

lemma digits_val_bound:
  assumes "is_digit a" and "is_digit b"
  shows "digits_val [a, b] < 100"
  using assms by (auto simp add: digits_val_def is_digit_def)

lemma digits_val_zero:
  assumes "is_digit a" and "is_digit b"
  shows "digits_val [a, b] = 0 \<longleftrightarrow> a = 48 \<and> b = 48"
  using assms by (auto simp add: digits_val_def is_digit_def)

lemma hms_parts:
  fixes H M S :: nat
  assumes "M < 60" and "S < 60"
  shows "(3600 * H + 60 * M + S) div 3600 = H"
    and "(3600 * H + 60 * M + S) mod 3600 div 60 = M"
    and "(3600 * H + 60 * M + S) mod 60 = S"
proof -
  have low: "60 * M + S < 3600" using assms by simp
  show "(3600 * H + 60 * M + S) div 3600 = H"
    using low by (simp add: add.assoc)
  have "(3600 * H + 60 * M + S) mod 3600 = 60 * M + S"
    using low by (simp add: add.assoc)
  then show "(3600 * H + 60 * M + S) mod 3600 div 60 = M"
    using assms by simp
  have "(3600 * H + 60 * M + S) = 60 * (60 * H + M) + S" by simp
  then show "(3600 * H + 60 * M + S) mod 60 = S"
    using assms by (simp only: mod_mult_self4) simp
qed

lemma split_millis:
  assumes "46 \<notin> set x"
  shows "strip_millis (x @ [46, 48, 48, 48]) = x"
  using assms by (induction x) (auto simp add: strip_millis_def split: list.splits)


lemma js_zero_strings: "js ''00'' = [48, 48]" "js ''.000'' = [46, 48, 48, 48]"
  by (simp_all add: js_def)

text \<open>
  C5, as the code has it. For a timestamp \<open>t\<close> in the form \<^verbatim>\<open>HH:MM:SS\<close> with
  minutes and seconds below 60, \<^verbatim>\<open>secondsToTimestamp(timestampToSeconds(t))\<close> is
  \<open>t\<close> followed by \<^verbatim>\<open>.000\<close> when the hours are not zero, and \<^verbatim>\<open>MM:SS.000\<close>
  (the hours dropped) when they are zero; the part before the period converts back to
  the same number of seconds.
\<close>

theorem printed_seconds_of_hms:
  assumes "is_hms t"
  shows "secondsToTimestamp (timestampToSeconds t) =
           (if take 2 t = js ''00'' then drop 3 t else t) @ js ''.000''
       \<and> timestampToSeconds (strip_millis (secondsToTimestamp (timestampToSeconds t))) =
           timestampToSeconds t"
proof -
  from assms obtain h1 h2 m1 m2 s1 s2
    where t: "t = [h1, h2, 58, m1, m2, 58, s1, s2]"
      and d: "is_digit h1" "is_digit h2" "is_digit m1" "is_digit m2" "is_digit s1" "is_digit s2"
      and b: "digits_val [m1, m2] < 60" "digits_val [s1, s2] < 60"
    by (auto simp add: is_hms_def split: list.splits)
  let ?H = "digits_val [h1, h2]" and ?M = "digits_val [m1, m2]" and ?S = "digits_val [s1, s2]"
  let ?n = "3600 * ?H + 60 * ?M + ?S"
  have sec: "timestampToSeconds [h1, h2, 58, m1, m2, 58, s1, s2] = Fin (of_nat ?n)"
    using d by (rule seconds_hms)
  have parts: "?n div 3600 = ?H" "?n mod 3600 div 60 = ?M" "?n mod 60 = ?S"
    using hms_parts [OF b, of ?H] by simp_all
  have pads: "pad2 (Fin (of_nat ?H)) = [h1, h2]" "pad2 (Fin (of_nat ?M)) = [m1, m2]"
    "pad2 (Fin (of_nat ?S)) = [s1, s2]"
    using d b by (simp_all add: pad2_nat digits_val_bound two_digits_of_digits)
  have printed: "secondsToTimestamp (Fin (of_nat ?n)) =
      (if 0 < ?H then [h1, h2, 58, m1, m2, 58, s1, s2] else [m1, m2, 58, s1, s2])
        @ [46, 48, 48, 48]"
    by (simp only: print_nat parts pads) simp
  have zero: "?H = 0 \<longleftrightarrow> h1 = 48 \<and> h2 = 48"
    using d by (simp add: digits_val_zero)
  have first: "secondsToTimestamp (timestampToSeconds t) =
           (if take 2 t = js ''00'' then drop 3 t else t) @ js ''.000''"
  proof (cases "0 < ?H")
    case True
    with zero have "take 2 t \<noteq> js ''00''" by (auto simp add: t js_zero_strings)
    moreover from True have "secondsToTimestamp (timestampToSeconds t) = t @ [46, 48, 48, 48]"
      by (simp only: t sec printed if_True)
    ultimately show ?thesis by (simp add: js_zero_strings)
  next
    case False
    with zero have "take 2 t = js ''00''" by (simp add: t js_zero_strings)
    moreover from False
    have "secondsToTimestamp (timestampToSeconds t) = [m1, m2, 58, s1, s2] @ [46, 48, 48, 48]"
      by (simp only: t sec printed if_False)
    moreover have "drop 3 t = [m1, m2, 58, s1, s2]" by (simp add: t)
    ultimately show ?thesis by (simp add: js_zero_strings)
  qed
  have nodot: "46 \<notin> set [h1, h2, 58, m1, m2, 58, s1, s2]" "46 \<notin> set [m1, m2, 58, s1, s2]"
    using d by (auto simp add: is_digit_def)
  have second: "timestampToSeconds (strip_millis (secondsToTimestamp (timestampToSeconds t))) =
           timestampToSeconds t"
  proof (cases "0 < ?H")
    case True
    then have "strip_millis (secondsToTimestamp (timestampToSeconds t)) = t"
      using split_millis [OF nodot(1)] by (simp only: t sec printed if_True)
    then show ?thesis by simp
  next
    case False
    then have "strip_millis (secondsToTimestamp (timestampToSeconds t)) = [m1, m2, 58, s1, s2]"
      using split_millis [OF nodot(2)] by (simp only: t sec printed if_False)
    moreover have "timestampToSeconds [m1, m2, 58, s1, s2] = Fin (of_nat (60 * ?M + ?S))"
      using d by (simp only: seconds_ms)
    moreover have "?n = 60 * ?M + ?S" using False by simp
    ultimately show ?thesis by (simp only: t sec)
  qed
  from first second show ?thesis ..
qed

lemma hms_16: "is_hms (js ''00:00:16'')"
  by (simp add: is_hms_def js_def is_digit_def digits_val_def)

lemma hms_1h: "is_hms (js ''01:02:03'')"
  by (simp add: is_hms_def js_def is_digit_def digits_val_def)

theorem printed_seconds_of_hms_witness:
  "is_hms (js ''00:00:16'') \<and> is_hms (js ''01:02:03'')
   \<and> secondsToTimestamp (timestampToSeconds (js ''00:00:16'')) = js ''00:16.000''
   \<and> secondsToTimestamp (timestampToSeconds (js ''01:02:03'')) = js ''01:02:03.000''"
  using printed_seconds_of_hms [OF hms_16] printed_seconds_of_hms [OF hms_1h] hms_16 hms_1h
  by (simp add: js_def)

lemma stamp_strings:
  "js ''00:16.000'' = [48, 48, 58, 49, 54, 46, 48, 48, 48]"
  "js ''00:00:16'' = [48, 48, 58, 48, 48, 58, 49, 54]"
  by (simp_all add: js_def)

text \<open>
  C5 as stated fails: \<^verbatim>\<open>00:00:16\<close> converts to 16 seconds, which prints as
  \<^verbatim>\<open>00:16.000\<close>.
\<close>

theorem printed_seconds_differ:
  "secondsToTimestamp (timestampToSeconds (js ''00:00:16'')) = js ''00:16.000''
   \<and> js ''00:16.000'' \<noteq> js ''00:00:16''"
proof -
  have "pad2 (Fin 0) = [48, 48]" "pad2 (Fin 16) = [49, 54]"
    using pad2_nat [of 0] pad2_nat [of 16] by (simp_all add: two_digits_def)
  then have "secondsToTimestamp (Fin (of_nat 16)) = [48, 48, 58, 49, 54, 46, 48, 48, 48]"
    by (simp only: print_nat) simp
  then have "secondsToTimestamp (timestampToSeconds (js ''00:00:16'')) = js ''00:16.000''"
    by (simp add: seconds_16 stamp_strings(1))
  then show ?thesis by (simp add: stamp_strings)
qed

end
